theory Spec2Isabelle
  imports Complex_Main "HOL-Library.Monad_Syntax"
begin

section \<open>Arrays, loops and cell flags\<close>

text \<open>
  The kernels of \<^verbatim>\<open>uvp.c\<close> work on two-dimensional arrays \<^verbatim>\<open>double **\<close> and
  \<^verbatim>\<open>int **\<close>, addressed as \<^verbatim>\<open>A[i][j]\<close> with \<^verbatim>\<open>int\<close> indices. An array is a partial map
  from index pairs to values: its domain is the allocated index set, and an access
  outside of it (undefined behaviour in C) is the value \<open>None\<close> of the kernel that
  performs it. The indices are mathematical integers; the counters of the source stay
  far below \<^verbatim>\<open>INT_MAX\<close> for any array that fits into memory.

  A \<^verbatim>\<open>double\<close> is idealised as a real number: arithmetic is exact, without rounding
  or overflow. Quotients by the run parameters (\<^verbatim>\<open>dx\<close>, \<^verbatim>\<open>dy\<close>, \<^verbatim>\<open>dt\<close>, \<^verbatim>\<open>Re\<close>, \<^verbatim>\<open>Pr\<close>),
  which the callers keep away from zero, are written with the division of the reals.
  In \<^verbatim>\<open>calculate_dt\<close> the divisors \<^verbatim>\<open>u_max\<close> and \<^verbatim>\<open>v_max\<close> are computed from array contents
  and can be zero; there a \<^verbatim>\<open>double\<close> is a value of the type \<open>dbl\<close> below, a real number
  or one of the special values of IEEE 754, and the quotient and \<^verbatim>\<open>fmin\<close> follow
  IEEE 754 and the C library.
\<close>

type_synonym matrix = "int \<times> int \<Rightarrow> real option"
type_synonym imatrix = "int \<times> int \<Rightarrow> int option"

definition rd :: "(int \<times> int \<Rightarrow> 'a option) \<Rightarrow> int \<Rightarrow> int \<Rightarrow> 'a option" where
  "rd A i j = A (i, j)"

definition wr :: "(int \<times> int \<Rightarrow> 'a option) \<Rightarrow> int \<Rightarrow> int \<Rightarrow> 'a
    \<Rightarrow> (int \<times> int \<Rightarrow> 'a option) option" where
  "wr A i j v = (case A (i, j) of None \<Rightarrow> None | Some old \<Rightarrow> Some (A((i, j) \<mapsto> v)))"

text \<open>
  The values of a \<^verbatim>\<open>double\<close>: a finite number, an infinity, or NaN. Every zero divisor
  that occurs in \<^verbatim>\<open>calculate_dt\<close> is a positive zero (the initial value 0 of a maximum,
  a result of \<^verbatim>\<open>fabs\<close>, or a square), so a finite number divided by zero is the infinity
  of the sign of the dividend, and \<open>0 / 0\<close> is NaN.
\<close>

datatype dbl = Fin real | PInf | NInf | NaN

fun dadd :: "dbl \<Rightarrow> dbl \<Rightarrow> dbl" where
  "dadd (Fin x) (Fin y) = Fin (x + y)"
| "dadd NaN y = NaN"
| "dadd x NaN = NaN"
| "dadd PInf NInf = NaN"
| "dadd NInf PInf = NaN"
| "dadd PInf y = PInf"
| "dadd x PInf = PInf"
| "dadd NInf y = NInf"
| "dadd x NInf = NInf"

fun dmul :: "dbl \<Rightarrow> dbl \<Rightarrow> dbl" where
  "dmul (Fin x) (Fin y) = Fin (x * y)"
| "dmul NaN y = NaN"
| "dmul x NaN = NaN"
| "dmul (Fin x) PInf = (if 0 < x then PInf else if x < 0 then NInf else NaN)"
| "dmul (Fin x) NInf = (if 0 < x then NInf else if x < 0 then PInf else NaN)"
| "dmul PInf (Fin y) = (if 0 < y then PInf else if y < 0 then NInf else NaN)"
| "dmul NInf (Fin y) = (if 0 < y then NInf else if y < 0 then PInf else NaN)"
| "dmul PInf PInf = PInf"
| "dmul NInf NInf = PInf"
| "dmul PInf NInf = NInf"
| "dmul NInf PInf = NInf"

fun ddiv :: "dbl \<Rightarrow> dbl \<Rightarrow> dbl" where
  "ddiv (Fin x) (Fin y) =
     (if y = 0 then (if 0 < x then PInf else if x < 0 then NInf else NaN) else Fin (x / y))"
| "ddiv NaN y = NaN"
| "ddiv x NaN = NaN"
| "ddiv (Fin x) PInf = Fin 0"
| "ddiv (Fin x) NInf = Fin 0"
| "ddiv PInf (Fin y) = (if 0 \<le> y then PInf else NInf)"
| "ddiv NInf (Fin y) = (if 0 \<le> y then NInf else PInf)"
| "ddiv PInf PInf = NaN"
| "ddiv PInf NInf = NaN"
| "ddiv NInf PInf = NaN"
| "ddiv NInf NInf = NaN"

text \<open>\<^verbatim>\<open>fmin\<close> of the C library: if one argument is NaN, the other one is returned.\<close>

fun fmin :: "dbl \<Rightarrow> dbl \<Rightarrow> dbl" where
  "fmin (Fin x) (Fin y) = Fin (min x y)"
| "fmin NaN y = y"
| "fmin x NaN = x"
| "fmin NInf y = NInf"
| "fmin x NInf = NInf"
| "fmin PInf y = y"
| "fmin x PInf = x"

text \<open>A \<^verbatim>\<open>for\<close> loop over a list of counter values; it stops at the first fault.\<close>

fun for_loop :: "('x \<Rightarrow> 's \<Rightarrow> 's option) \<Rightarrow> 'x list \<Rightarrow> 's \<Rightarrow> 's option" where
  "for_loop body [] s = Some s"
| "for_loop body (x # xs) s =
     (case body x s of None \<Rightarrow> None | Some s' \<Rightarrow> for_loop body xs s')"

text \<open>
  Modelled from the spec: the flag predicates \<^verbatim>\<open>isFluid\<close>, \<^verbatim>\<open>isObstacle\<close>,
  \<^verbatim>\<open>isNeighbourFluid\<close>, \<^verbatim>\<open>isNeighbourObstacle\<close> and the direction constants are
  declared in headers that are not part of the sources. The spec gives a flag as a
  bitmask that is only queried through these four predicates, for the four
  axis-aligned neighbours; the kernels take the predicates as a parameter.
\<close>

datatype direction = TOP | BOTTOM | LEFT | RIGHT

record flag_ops =
  isFluid :: "int \<Rightarrow> bool"
  isObstacle :: "int \<Rightarrow> bool"
  isNeighbourFluid :: "int \<Rightarrow> direction \<Rightarrow> bool"
  isNeighbourObstacle :: "int \<Rightarrow> direction \<Rightarrow> bool"

text \<open>
  The buffers the orchestrator hands to the kernels, and the cell \<^verbatim>\<open>*dt\<close> that
  \<^verbatim>\<open>calculate_dt\<close> writes. The buffers are distinct arrays.
\<close>

record fields =
  fU :: matrix
  fV :: matrix
  fF :: matrix
  fG :: matrix
  fP :: matrix
  fT :: matrix
  fRS :: matrix
  fFlags :: imatrix
  fdt :: dbl

section \<open>Stencil operators\<close>

definition secondDerivativeDx :: "matrix \<Rightarrow> int \<Rightarrow> int \<Rightarrow> real \<Rightarrow> real option" where
  "secondDerivativeDx A i j h = do {
     am \<leftarrow> rd A (i - 1) j;
     a \<leftarrow> rd A i j;
     ap \<leftarrow> rd A (i + 1) j;
     Some ((am - 2 * a + ap) / (h * h))
   }"

definition secondDerivativeDy :: "matrix \<Rightarrow> int \<Rightarrow> int \<Rightarrow> real \<Rightarrow> real option" where
  "secondDerivativeDy A i j h = do {
     am \<leftarrow> rd A i (j - 1);
     a \<leftarrow> rd A i j;
     ap \<leftarrow> rd A i (j + 1);
     Some ((am - 2 * a + ap) / (h * h))
   }"

definition productDerivativeDx ::
    "matrix \<Rightarrow> matrix \<Rightarrow> int \<Rightarrow> int \<Rightarrow> real \<Rightarrow> real \<Rightarrow> real option" where
  "productDerivativeDx A B i j h alpha = do {
     a \<leftarrow> rd A i j;
     au \<leftarrow> rd A i (j + 1);
     b \<leftarrow> rd B i j;
     br \<leftarrow> rd B (i + 1) j;
     al \<leftarrow> rd A (i - 1) j;
     alt \<leftarrow> rd A (i - 1) (j + 1);
     bl \<leftarrow> rd B (i - 1) j;
     Some (1 / h *
             ((a + au) / 2 * (b + br) / 2
              - (al + alt) / 2 * (bl + b) / 2)
           + alpha / h *
             (\<bar>a + au\<bar> / 2 * (b - br) / 2
              - \<bar>al + alt\<bar> / 2 * (bl - b) / 2))
   }"

definition productDerivativeDy ::
    "matrix \<Rightarrow> matrix \<Rightarrow> int \<Rightarrow> int \<Rightarrow> real \<Rightarrow> real \<Rightarrow> real option" where
  "productDerivativeDy A B i j h alpha = do {
     b \<leftarrow> rd B i j;
     br \<leftarrow> rd B (i + 1) j;
     a \<leftarrow> rd A i j;
     au \<leftarrow> rd A i (j + 1);
     bb \<leftarrow> rd B i (j - 1);
     bbr \<leftarrow> rd B (i + 1) (j - 1);
     ab \<leftarrow> rd A i (j - 1);
     Some (1 / h *
             ((b + br) / 2 * (a + au) / 2
              - (bb + bbr) / 2 * (ab + a) / 2)
           + alpha / h *
             (\<bar>b + br\<bar> / 2 * (a - au) / 2
              - \<bar>bb + bbr\<bar> / 2 * (ab - a) / 2))
   }"

definition squareDerivativeDx :: "matrix \<Rightarrow> int \<Rightarrow> int \<Rightarrow> real \<Rightarrow> real \<Rightarrow> real option" where
  "squareDerivativeDx A i j h alpha = do {
     a \<leftarrow> rd A i j;
     ar \<leftarrow> rd A (i + 1) j;
     al \<leftarrow> rd A (i - 1) j;
     Some (1 / h *
             (((a + ar) / 2) ^ 2
              - ((al + a) / 2) ^ 2)
           + alpha / h *
             (\<bar>a + ar\<bar> / 2 * (a - ar) / 2
              - \<bar>al + a\<bar> / 2 * (al - a) / 2))
   }"

definition squareDerivativeDy :: "matrix \<Rightarrow> int \<Rightarrow> int \<Rightarrow> real \<Rightarrow> real \<Rightarrow> real option" where
  "squareDerivativeDy A i j h alpha = do {
     a \<leftarrow> rd A i j;
     au \<leftarrow> rd A i (j + 1);
     ab \<leftarrow> rd A i (j - 1);
     Some (1 / h *
             (((a + au) / 2) ^ 2
              - ((ab + a) / 2) ^ 2)
           + alpha / h *
             (\<bar>a + au\<bar> / 2 * (a - au) / 2
              - \<bar>ab + a\<bar> / 2 * (ab - a) / 2))
   }"

section \<open>The momentum kernel\<close>

definition computeF :: "real \<Rightarrow> real \<Rightarrow> real \<Rightarrow> real \<Rightarrow> real \<Rightarrow> real \<Rightarrow> real
    \<Rightarrow> matrix \<Rightarrow> matrix \<Rightarrow> matrix \<Rightarrow> int \<Rightarrow> int \<Rightarrow> real option" where
  "computeF Re' GX alpha beta dt dx dy U V T i j = do {
     u \<leftarrow> rd U i j;
     dxx \<leftarrow> secondDerivativeDx U i j dx;
     dyy \<leftarrow> secondDerivativeDy U i j dy;
     du2 \<leftarrow> squareDerivativeDx U i j dx alpha;
     duv \<leftarrow> productDerivativeDy U V i j dy alpha;
     t \<leftarrow> rd T i j;
     Some (u + dt * (1 / Re' * (dxx + dyy) - du2 - duv + (1 - beta * t) * GX))
   }"

definition computeG :: "real \<Rightarrow> real \<Rightarrow> real \<Rightarrow> real \<Rightarrow> real \<Rightarrow> real \<Rightarrow> real
    \<Rightarrow> matrix \<Rightarrow> matrix \<Rightarrow> matrix \<Rightarrow> int \<Rightarrow> int \<Rightarrow> real option" where
  "computeG Re' GY alpha beta dt dx dy U V T i j = do {
     v \<leftarrow> rd V i j;
     dxx \<leftarrow> secondDerivativeDx V i j dx;
     dyy \<leftarrow> secondDerivativeDy V i j dy;
     duv \<leftarrow> productDerivativeDx U V i j dx alpha;
     dv2 \<leftarrow> squareDerivativeDy V i j dy alpha;
     t \<leftarrow> rd T i j;
     Some (v + dt * (1 / Re' * (dxx + dyy) - duv - dv2 + (1 - beta * t) * GY))
   }"

definition set_F :: "int \<Rightarrow> int \<Rightarrow> real \<Rightarrow> fields \<Rightarrow> fields option" where
  "set_F i j v s = map_option (\<lambda>A. s\<lparr>fF := A\<rparr>) (wr (fF s) i j v)"

definition set_G :: "int \<Rightarrow> int \<Rightarrow> real \<Rightarrow> fields \<Rightarrow> fields option" where
  "set_G i j v s = map_option (\<lambda>A. s\<lparr>fG := A\<rparr>) (wr (fG s) i j v)"

text \<open>The two boundary loops: lines 36 to 47 of the source.\<close>

definition fg_boundary_G :: "int \<Rightarrow> int \<Rightarrow> fields \<Rightarrow> fields option" where
  "fg_boundary_G jmax i s = do {
     v0 \<leftarrow> rd (fV s) i 0;
     s1 \<leftarrow> set_G i 0 v0 s;
     v1 \<leftarrow> rd (fV s1) i jmax;
     set_G i jmax v1 s1
   }"

definition fg_boundary_F :: "int \<Rightarrow> int \<Rightarrow> fields \<Rightarrow> fields option" where
  "fg_boundary_F imax j s = do {
     u0 \<leftarrow> rd (fU s) 0 j;
     s1 \<leftarrow> set_F 0 j u0 s;
     u1 \<leftarrow> rd (fU s1) imax j;
     set_F imax j u1 s1
   }"

text \<open>The bodies of the two interior loop nests: lines 52 to 64 and 70 to 81.\<close>

definition fg_cell_F :: "flag_ops \<Rightarrow> real \<Rightarrow> real \<Rightarrow> real \<Rightarrow> real \<Rightarrow> real \<Rightarrow> real \<Rightarrow> real
    \<Rightarrow> int \<Rightarrow> int \<Rightarrow> fields \<Rightarrow> fields option" where
  "fg_cell_F ops Re' GX alpha beta dt dx dy i j s = do {
     cell \<leftarrow> rd (fFlags s) i j;
     if isObstacle ops cell \<or> isNeighbourObstacle ops cell RIGHT
     then do { u \<leftarrow> rd (fU s) i j; set_F i j u s }
     else do {
       v \<leftarrow> computeF Re' GX alpha beta dt dx dy (fU s) (fV s) (fT s) i j;
       set_F i j v s
     }
   }"

definition fg_cell_G :: "flag_ops \<Rightarrow> real \<Rightarrow> real \<Rightarrow> real \<Rightarrow> real \<Rightarrow> real \<Rightarrow> real \<Rightarrow> real
    \<Rightarrow> int \<Rightarrow> int \<Rightarrow> fields \<Rightarrow> fields option" where
  "fg_cell_G ops Re' GY alpha beta dt dx dy i j s = do {
     cell \<leftarrow> rd (fFlags s) i j;
     if isObstacle ops cell \<or> isNeighbourObstacle ops cell TOP
     then do { v \<leftarrow> rd (fV s) i j; set_G i j v s }
     else do {
       v \<leftarrow> computeG Re' GY alpha beta dt dx dy (fU s) (fV s) (fT s) i j;
       set_G i j v s
     }
   }"

definition calculate_fg :: "flag_ops \<Rightarrow> real \<Rightarrow> real \<Rightarrow> real \<Rightarrow> real \<Rightarrow> real \<Rightarrow> real
    \<Rightarrow> real \<Rightarrow> real \<Rightarrow> int \<Rightarrow> int \<Rightarrow> fields \<Rightarrow> fields option" where
  "calculate_fg ops Re' GX GY alpha beta dt dx dy imax jmax s = do {
     s1 \<leftarrow> for_loop (fg_boundary_G jmax) [1..imax] s;
     s2 \<leftarrow> for_loop (fg_boundary_F imax) [1..jmax] s1;
     s3 \<leftarrow> for_loop (\<lambda>i. for_loop (fg_cell_F ops Re' GX alpha beta dt dx dy i) [1..jmax])
             [1..imax - 1] s2;
     for_loop (\<lambda>i. for_loop (fg_cell_G ops Re' GY alpha beta dt dx dy i) [1..jmax - 1])
       [1..imax] s3
   }"

section \<open>The right-hand side of the pressure equation\<close>

definition rs_cell :: "flag_ops \<Rightarrow> real \<Rightarrow> real \<Rightarrow> real \<Rightarrow> int \<Rightarrow> int \<Rightarrow> fields
    \<Rightarrow> fields option" where
  "rs_cell ops dt dx dy i j s = do {
     cell \<leftarrow> rd (fFlags s) i j;
     if isFluid ops cell
     then do {
       f \<leftarrow> rd (fF s) i j;
       fl \<leftarrow> rd (fF s) (i - 1) j;
       g \<leftarrow> rd (fG s) i j;
       gb \<leftarrow> rd (fG s) i (j - 1);
       A \<leftarrow> wr (fRS s) i j (((f - fl) / dx + (g - gb) / dy) / dt);
       Some (s\<lparr>fRS := A\<rparr>)
     }
     else Some s
   }"

definition calculate_rs :: "flag_ops \<Rightarrow> real \<Rightarrow> real \<Rightarrow> real \<Rightarrow> int \<Rightarrow> int \<Rightarrow> fields
    \<Rightarrow> fields option" where
  "calculate_rs ops dt dx dy imax jmax s =
     for_loop (\<lambda>i. for_loop (rs_cell ops dt dx dy i) [1..jmax]) [1..imax] s"

section \<open>The time step\<close>

definition dt_scan_cell :: "fields \<Rightarrow> int \<times> int \<Rightarrow> real \<times> real \<Rightarrow> (real \<times> real) option" where
  "dt_scan_cell s = (\<lambda>(i, j) (u_max, v_max). do {
     u \<leftarrow> rd (fU s) i j;
     v \<leftarrow> rd (fV s) i j;
     Some (if \<bar>u\<bar> > u_max then \<bar>u\<bar> else u_max, if \<bar>v\<bar> > v_max then \<bar>v\<bar> else v_max)
   })"

definition dt_scan :: "int \<Rightarrow> int \<Rightarrow> fields \<Rightarrow> (real \<times> real) option" where
  "dt_scan imax jmax s =
     for_loop (\<lambda>i. for_loop (\<lambda>j. dt_scan_cell s (i, j)) [0..jmax]) [0..imax] (0, 0)"

definition calculate_dt :: "real \<Rightarrow> real \<Rightarrow> real \<Rightarrow> real \<Rightarrow> real \<Rightarrow> int \<Rightarrow> int \<Rightarrow> fields
    \<Rightarrow> fields option" where
  "calculate_dt Re' Pr tau dx dy imax jmax s = do {
     (u_max, v_max) \<leftarrow> dt_scan imax jmax s;
     let minimum =
       fmin (ddiv (Fin (Re' * Pr / 2))
                  (dadd (ddiv (Fin 1) (Fin (dx ^ 2))) (ddiv (Fin 1) (Fin (dy ^ 2)))))
            (fmin (ddiv (Fin dx) (Fin u_max)) (ddiv (Fin dy) (Fin v_max)));
     Some (s\<lparr>fdt := dmul (Fin tau) minimum\<rparr>)
   }"

section \<open>The velocity correction\<close>

definition uv_cell_U :: "flag_ops \<Rightarrow> real \<Rightarrow> real \<Rightarrow> int \<Rightarrow> int \<Rightarrow> fields \<Rightarrow> fields option" where
  "uv_cell_U ops dt dx i j s = do {
     cell \<leftarrow> rd (fFlags s) i j;
     if isFluid ops cell \<and> isNeighbourFluid ops cell RIGHT
     then do {
       f \<leftarrow> rd (fF s) i j;
       pr \<leftarrow> rd (fP s) (i + 1) j;
       p \<leftarrow> rd (fP s) i j;
       A \<leftarrow> wr (fU s) i j (f - (dt / dx * (pr - p)));
       Some (s\<lparr>fU := A\<rparr>)
     }
     else Some s
   }"

definition uv_cell_V :: "flag_ops \<Rightarrow> real \<Rightarrow> real \<Rightarrow> int \<Rightarrow> int \<Rightarrow> fields \<Rightarrow> fields option" where
  "uv_cell_V ops dt dy i j s = do {
     cell \<leftarrow> rd (fFlags s) i j;
     if isFluid ops cell \<and> isNeighbourFluid ops cell TOP
     then do {
       g \<leftarrow> rd (fG s) i j;
       pt \<leftarrow> rd (fP s) i (j + 1);
       p \<leftarrow> rd (fP s) i j;
       A \<leftarrow> wr (fV s) i j (g - (dt / dy * (pt - p)));
       Some (s\<lparr>fV := A\<rparr>)
     }
     else Some s
   }"

definition calculate_uv :: "flag_ops \<Rightarrow> real \<Rightarrow> real \<Rightarrow> real \<Rightarrow> int \<Rightarrow> int \<Rightarrow> fields
    \<Rightarrow> fields option" where
  "calculate_uv ops dt dx dy imax jmax s = do {
     s1 \<leftarrow> for_loop (\<lambda>i. for_loop (uv_cell_U ops dt dx i) [1..jmax]) [1..imax - 1] s;
     for_loop (\<lambda>i. for_loop (uv_cell_V ops dt dy i) [1..jmax - 1]) [1..imax] s1
   }"

section \<open>The temperature kernel\<close>

text \<open>
  The right-hand side of the assignment in lines 319 to 344, reading the temperature
  from \<open>T\<close> and the velocities from \<open>U\<close> and \<open>V\<close>.
\<close>

definition T_update :: "real \<Rightarrow> real \<Rightarrow> real \<Rightarrow> real \<Rightarrow> real \<Rightarrow> real
    \<Rightarrow> matrix \<Rightarrow> matrix \<Rightarrow> matrix \<Rightarrow> int \<Rightarrow> int \<Rightarrow> real option" where
  "T_update Re' Pr dt dx dy alpha T U V i j = do {
     t \<leftarrow> rd T i j;
     u \<leftarrow> rd U i j;
     tr \<leftarrow> rd T (i + 1) j;
     ul \<leftarrow> rd U (i - 1) j;
     tl \<leftarrow> rd T (i - 1) j;
     v \<leftarrow> rd V i j;
     tt \<leftarrow> rd T i (j + 1);
     vb \<leftarrow> rd V i (j - 1);
     tb \<leftarrow> rd T i (j - 1);
     Some (t + dt *
       (- 1 / dx * (u * (t + tr) / 2 - ul * (tl + t) / 2)
        - alpha * 1 / dx * (\<bar>u\<bar> * (t + tr) / 2 - \<bar>ul\<bar> * (tl + t) / 2)
        - 1 / dy * (v * (t + tt) / 2 - vb * (tb + t) / 2)
        - alpha * 1 / dy * (\<bar>v\<bar> * (t + tt) / 2 - \<bar>vb\<bar> * (tb + t) / 2)
        + 1 / (Re' * Pr) *
          ((tr - 2 * t + tl) / (dx * dx) + (tt - 2 * t + tb) / (dy * dy))))
   }"

definition T_cell :: "real \<Rightarrow> real \<Rightarrow> real \<Rightarrow> real \<Rightarrow> real \<Rightarrow> real \<Rightarrow> int \<Rightarrow> int
    \<Rightarrow> fields \<Rightarrow> fields option" where
  "T_cell Re' Pr dt dx dy alpha i j s = do {
     v \<leftarrow> T_update Re' Pr dt dx dy alpha (fT s) (fU s) (fV s) i j;
     A \<leftarrow> wr (fT s) i j v;
     Some (s\<lparr>fT := A\<rparr>)
   }"

definition calculate_T :: "real \<Rightarrow> real \<Rightarrow> real \<Rightarrow> real \<Rightarrow> real \<Rightarrow> real \<Rightarrow> int \<Rightarrow> int
    \<Rightarrow> fields \<Rightarrow> fields option" where
  "calculate_T Re' Pr dt dx dy alpha imax jmax s =
     for_loop (\<lambda>i. for_loop (T_cell Re' Pr dt dx dy alpha i) [0..jmax]) [0..imax] s"

section \<open>Well-formed fields and the formulas of the specification\<close>

text \<open>
  A field over the extended domain holds a value exactly at the indices
  \<open>[0..imax+1] \<times> [0..jmax+1]\<close>. The predicate takes the lowest index as a parameter;
  every field of a well-formed input starts at index 0.
\<close>

definition allocated :: "int \<Rightarrow> int \<Rightarrow> int \<Rightarrow> (int \<times> int \<Rightarrow> 'a option) \<Rightarrow> bool" where
  "allocated lo imax jmax A =
     (\<forall>i j. (A (i, j) \<noteq> None) = (lo \<le> i \<and> i \<le> imax + 1 \<and> lo \<le> j \<and> j \<le> jmax + 1))"

definition wf_fields :: "int \<Rightarrow> int \<Rightarrow> fields \<Rightarrow> bool" where
  "wf_fields imax jmax s =
     (1 \<le> imax \<and> 1 \<le> jmax \<and>
      allocated 0 imax jmax (fU s) \<and> allocated 0 imax jmax (fV s) \<and>
      allocated 0 imax jmax (fF s) \<and> allocated 0 imax jmax (fG s) \<and>
      allocated 0 imax jmax (fP s) \<and> allocated 0 imax jmax (fT s) \<and>
      allocated 0 imax jmax (fRS s) \<and> allocated 0 imax jmax (fFlags s))"

text \<open>The entry \<open>A[i][j]\<close> of an allocated cell.\<close>

definition cell :: "(int \<times> int \<Rightarrow> 'a option) \<Rightarrow> int \<Rightarrow> int \<Rightarrow> 'a" where
  "cell A i j = the (A (i, j))"

text \<open>
  The discrete operators as the specification words them: central second differences,
  and flux differences of face averages blended with an upwind term weighted by
  \<open>alpha\<close>.
\<close>

definition d2_dx :: "matrix \<Rightarrow> int \<Rightarrow> int \<Rightarrow> real \<Rightarrow> real" where
  "d2_dx A i j h = (cell A (i - 1) j - 2 * cell A i j + cell A (i + 1) j) / h ^ 2"

definition d2_dy :: "matrix \<Rightarrow> int \<Rightarrow> int \<Rightarrow> real \<Rightarrow> real" where
  "d2_dy A i j h = (cell A i (j - 1) - 2 * cell A i j + cell A i (j + 1)) / h ^ 2"

definition du2_dx :: "matrix \<Rightarrow> int \<Rightarrow> int \<Rightarrow> real \<Rightarrow> real \<Rightarrow> real" where
  "du2_dx U i j h alpha =
     1 / h * (((cell U i j + cell U (i + 1) j) / 2) ^ 2
              - ((cell U (i - 1) j + cell U i j) / 2) ^ 2)
     + alpha / h *
       (\<bar>cell U i j + cell U (i + 1) j\<bar> / 2 * ((cell U i j - cell U (i + 1) j) / 2)
        - \<bar>cell U (i - 1) j + cell U i j\<bar> / 2 * ((cell U (i - 1) j - cell U i j) / 2))"

definition dv2_dy :: "matrix \<Rightarrow> int \<Rightarrow> int \<Rightarrow> real \<Rightarrow> real \<Rightarrow> real" where
  "dv2_dy V i j h alpha =
     1 / h * (((cell V i j + cell V i (j + 1)) / 2) ^ 2
              - ((cell V i (j - 1) + cell V i j) / 2) ^ 2)
     + alpha / h *
       (\<bar>cell V i j + cell V i (j + 1)\<bar> / 2 * ((cell V i j - cell V i (j + 1)) / 2)
        - \<bar>cell V i (j - 1) + cell V i j\<bar> / 2 * ((cell V i (j - 1) - cell V i j) / 2))"

definition duv_dy :: "matrix \<Rightarrow> matrix \<Rightarrow> int \<Rightarrow> int \<Rightarrow> real \<Rightarrow> real \<Rightarrow> real" where
  "duv_dy U V i j h alpha =
     1 / h *
       ((cell V i j + cell V (i + 1) j) / 2 * ((cell U i j + cell U i (j + 1)) / 2)
        - (cell V i (j - 1) + cell V (i + 1) (j - 1)) / 2
          * ((cell U i (j - 1) + cell U i j) / 2))
     + alpha / h *
       (\<bar>cell V i j + cell V (i + 1) j\<bar> / 2 * ((cell U i j - cell U i (j + 1)) / 2)
        - \<bar>cell V i (j - 1) + cell V (i + 1) (j - 1)\<bar> / 2
          * ((cell U i (j - 1) - cell U i j) / 2))"

definition duv_dx :: "matrix \<Rightarrow> matrix \<Rightarrow> int \<Rightarrow> int \<Rightarrow> real \<Rightarrow> real \<Rightarrow> real" where
  "duv_dx U V i j h alpha =
     1 / h *
       ((cell U i j + cell U i (j + 1)) / 2 * ((cell V i j + cell V (i + 1) j) / 2)
        - (cell U (i - 1) j + cell U (i - 1) (j + 1)) / 2
          * ((cell V (i - 1) j + cell V i j) / 2))
     + alpha / h *
       (\<bar>cell U i j + cell U i (j + 1)\<bar> / 2 * ((cell V i j - cell V (i + 1) j) / 2)
        - \<bar>cell U (i - 1) j + cell U (i - 1) (j + 1)\<bar> / 2
          * ((cell V (i - 1) j - cell V i j) / 2))"

definition F_formula :: "real \<Rightarrow> real \<Rightarrow> real \<Rightarrow> real \<Rightarrow> real \<Rightarrow> real \<Rightarrow> real
    \<Rightarrow> matrix \<Rightarrow> matrix \<Rightarrow> matrix \<Rightarrow> int \<Rightarrow> int \<Rightarrow> real" where
  "F_formula Re' GX alpha beta dt dx dy U V T i j =
     cell U i j + dt * ((1 / Re') * (d2_dx U i j dx + d2_dy U i j dy)
                        - du2_dx U i j dx alpha - duv_dy U V i j dy alpha
                        + (1 - beta * cell T i j) * GX)"

definition G_formula :: "real \<Rightarrow> real \<Rightarrow> real \<Rightarrow> real \<Rightarrow> real \<Rightarrow> real \<Rightarrow> real
    \<Rightarrow> matrix \<Rightarrow> matrix \<Rightarrow> matrix \<Rightarrow> int \<Rightarrow> int \<Rightarrow> real" where
  "G_formula Re' GY alpha beta dt dx dy U V T i j =
     cell V i j + dt * ((1 / Re') * (d2_dx V i j dx + d2_dy V i j dy)
                        - duv_dx U V i j dx alpha - dv2_dy V i j dy alpha
                        + (1 - beta * cell T i j) * GY)"

text \<open>What one iteration of each loop of \<^verbatim>\<open>calculate_fg\<close> stores, as a finite map.\<close>

definition delta_boundary_G :: "matrix \<Rightarrow> int \<Rightarrow> int \<Rightarrow> int \<times> int \<Rightarrow> real option" where
  "delta_boundary_G V jmax i = [(i, 0) \<mapsto> cell V i 0, (i, jmax) \<mapsto> cell V i jmax]"

definition delta_boundary_F :: "matrix \<Rightarrow> int \<Rightarrow> int \<Rightarrow> int \<times> int \<Rightarrow> real option" where
  "delta_boundary_F U imax j = [(0, j) \<mapsto> cell U 0 j, (imax, j) \<mapsto> cell U imax j]"

definition F_value :: "flag_ops \<Rightarrow> real \<Rightarrow> real \<Rightarrow> real \<Rightarrow> real \<Rightarrow> real \<Rightarrow> real \<Rightarrow> real
    \<Rightarrow> fields \<Rightarrow> int \<Rightarrow> int \<Rightarrow> real" where
  "F_value ops Re' GX alpha beta dt dx dy s i j =
     (if isObstacle ops (cell (fFlags s) i j)
         \<or> isNeighbourObstacle ops (cell (fFlags s) i j) RIGHT
      then cell (fU s) i j
      else F_formula Re' GX alpha beta dt dx dy (fU s) (fV s) (fT s) i j)"

definition G_value :: "flag_ops \<Rightarrow> real \<Rightarrow> real \<Rightarrow> real \<Rightarrow> real \<Rightarrow> real \<Rightarrow> real \<Rightarrow> real
    \<Rightarrow> fields \<Rightarrow> int \<Rightarrow> int \<Rightarrow> real" where
  "G_value ops Re' GY alpha beta dt dx dy s i j =
     (if isObstacle ops (cell (fFlags s) i j)
         \<or> isNeighbourObstacle ops (cell (fFlags s) i j) TOP
      then cell (fV s) i j
      else G_formula Re' GY alpha beta dt dx dy (fU s) (fV s) (fT s) i j)"

text \<open>The contents of \<open>F\<close> and \<open>G\<close> after the four loops of \<^verbatim>\<open>calculate_fg\<close>.\<close>

definition fg_F_post :: "flag_ops \<Rightarrow> real \<Rightarrow> real \<Rightarrow> real \<Rightarrow> real \<Rightarrow> real \<Rightarrow> real \<Rightarrow> real
    \<Rightarrow> int \<Rightarrow> int \<Rightarrow> fields \<Rightarrow> matrix" where
  "fg_F_post ops Re' GX alpha beta dt dx dy imax jmax s =
     foldl (++)
       (foldl (++) (fF s) (map (delta_boundary_F (fU s) imax) [1..jmax]))
       (map (\<lambda>(i, j). [(i, j) \<mapsto> F_value ops Re' GX alpha beta dt dx dy s i j])
          (List.product [1..imax - 1] [1..jmax]))"

definition fg_G_post :: "flag_ops \<Rightarrow> real \<Rightarrow> real \<Rightarrow> real \<Rightarrow> real \<Rightarrow> real \<Rightarrow> real \<Rightarrow> real
    \<Rightarrow> int \<Rightarrow> int \<Rightarrow> fields \<Rightarrow> matrix" where
  "fg_G_post ops Re' GY alpha beta dt dx dy imax jmax s =
     foldl (++)
       (foldl (++) (fG s) (map (delta_boundary_G (fV s) jmax) [1..imax]))
       (map (\<lambda>(i, j). [(i, j) \<mapsto> G_value ops Re' GY alpha beta dt dx dy s i j])
          (List.product [1..imax] [1..jmax - 1]))"

text \<open>What the loops of \<^verbatim>\<open>calculate_rs\<close> and \<^verbatim>\<open>calculate_uv\<close> store, and the arrays they leave.\<close>

definition rs_delta :: "flag_ops \<Rightarrow> real \<Rightarrow> real \<Rightarrow> real \<Rightarrow> fields \<Rightarrow> int \<times> int
    \<Rightarrow> int \<times> int \<Rightarrow> real option" where
  "rs_delta ops dt dx dy s = (\<lambda>(i, j).
     if isFluid ops (cell (fFlags s) i j)
     then [(i, j) \<mapsto> ((cell (fF s) i j - cell (fF s) (i - 1) j) / dx
                        + (cell (fG s) i j - cell (fG s) i (j - 1)) / dy) / dt]
     else Map.empty)"

definition rs_post :: "flag_ops \<Rightarrow> real \<Rightarrow> real \<Rightarrow> real \<Rightarrow> int \<Rightarrow> int \<Rightarrow> fields \<Rightarrow> matrix" where
  "rs_post ops dt dx dy imax jmax s =
     foldl (++) (fRS s) (map (rs_delta ops dt dx dy s) (List.product [1..imax] [1..jmax]))"

definition uv_delta_U :: "flag_ops \<Rightarrow> real \<Rightarrow> real \<Rightarrow> fields \<Rightarrow> int \<times> int
    \<Rightarrow> int \<times> int \<Rightarrow> real option" where
  "uv_delta_U ops dt dx s = (\<lambda>(i, j).
     if isFluid ops (cell (fFlags s) i j) \<and> isNeighbourFluid ops (cell (fFlags s) i j) RIGHT
     then [(i, j) \<mapsto> cell (fF s) i j - (dt / dx * (cell (fP s) (i + 1) j - cell (fP s) i j))]
     else Map.empty)"

definition uv_delta_V :: "flag_ops \<Rightarrow> real \<Rightarrow> real \<Rightarrow> fields \<Rightarrow> int \<times> int
    \<Rightarrow> int \<times> int \<Rightarrow> real option" where
  "uv_delta_V ops dt dy s = (\<lambda>(i, j).
     if isFluid ops (cell (fFlags s) i j) \<and> isNeighbourFluid ops (cell (fFlags s) i j) TOP
     then [(i, j) \<mapsto> cell (fG s) i j - (dt / dy * (cell (fP s) i (j + 1) - cell (fP s) i j))]
     else Map.empty)"

definition uv_U_post :: "flag_ops \<Rightarrow> real \<Rightarrow> real \<Rightarrow> int \<Rightarrow> int \<Rightarrow> fields \<Rightarrow> matrix" where
  "uv_U_post ops dt dx imax jmax s =
     foldl (++) (fU s) (map (uv_delta_U ops dt dx s) (List.product [1..imax - 1] [1..jmax]))"

definition uv_V_post :: "flag_ops \<Rightarrow> real \<Rightarrow> real \<Rightarrow> int \<Rightarrow> int \<Rightarrow> fields \<Rightarrow> matrix" where
  "uv_V_post ops dt dy imax jmax s =
     foldl (++) (fV s) (map (uv_delta_V ops dt dy s) (List.product [1..imax] [1..jmax - 1]))"

text \<open>
  The largest absolute value of a field over \<open>i \<in> [0, imax]\<close>, \<open>j \<in> [0, jmax]\<close>, as the
  specification defines \<open>u_max\<close> and \<open>v_max\<close>.
\<close>

definition abs_max :: "matrix \<Rightarrow> int \<Rightarrow> int \<Rightarrow> real" where
  "abs_max A imax jmax = Max ((\<lambda>(i, j). \<bar>cell A i j\<bar>) ` ({0..imax} \<times> {0..jmax}))"

text \<open>
  The double-buffered temperature step of the specification: every new value is
  computed from the snapshot \<open>T0\<close> of the temperature before the sweep, and written
  into the buffer that becomes the new field.
\<close>

definition T_cell_buffered :: "real \<Rightarrow> real \<Rightarrow> real \<Rightarrow> real \<Rightarrow> real \<Rightarrow> real \<Rightarrow> matrix
    \<Rightarrow> int \<Rightarrow> int \<Rightarrow> fields \<Rightarrow> fields option" where
  "T_cell_buffered Re' Pr dt dx dy alpha T0 i j s = do {
     v \<leftarrow> T_update Re' Pr dt dx dy alpha T0 (fU s) (fV s) i j;
     A \<leftarrow> wr (fT s) i j v;
     Some (s\<lparr>fT := A\<rparr>)
   }"

definition calculate_T_buffered :: "real \<Rightarrow> real \<Rightarrow> real \<Rightarrow> real \<Rightarrow> real \<Rightarrow> real \<Rightarrow> int \<Rightarrow> int
    \<Rightarrow> fields \<Rightarrow> fields option" where
  "calculate_T_buffered Re' Pr dt dx dy alpha imax jmax s =
     for_loop (\<lambda>i. for_loop (T_cell_buffered Re' Pr dt dx dy alpha (fT s) i) [0..jmax])
       [0..imax] s"

section \<open>Concrete inputs\<close>

text \<open>
  Fields given by a function of the indices, over the index range starting at \<open>lo\<close>,
  and the state whose fields are all zero.
\<close>

definition mk_matrix :: "int \<Rightarrow> int \<Rightarrow> int \<Rightarrow> (int \<Rightarrow> int \<Rightarrow> 'a) \<Rightarrow> int \<times> int \<Rightarrow> 'a option" where
  "mk_matrix lo imax jmax f =
     (\<lambda>(i, j). if lo \<le> i \<and> i \<le> imax + 1 \<and> lo \<le> j \<and> j \<le> jmax + 1
               then Some (f i j) else None)"

definition zero_fields :: "int \<Rightarrow> int \<Rightarrow> int \<Rightarrow> fields" where
  "zero_fields lo imax jmax =
     \<lparr>fU = mk_matrix lo imax jmax (\<lambda>i j. 0), fV = mk_matrix lo imax jmax (\<lambda>i j. 0),
      fF = mk_matrix lo imax jmax (\<lambda>i j. 0), fG = mk_matrix lo imax jmax (\<lambda>i j. 0),
      fP = mk_matrix lo imax jmax (\<lambda>i j. 0), fT = mk_matrix lo imax jmax (\<lambda>i j. 0),
      fRS = mk_matrix lo imax jmax (\<lambda>i j. 0), fFlags = mk_matrix lo imax jmax (\<lambda>i j. 0),
      fdt = Fin 0\<rparr>"

text \<open>
  A flag encoding for the concrete inputs: bit 0 marks an obstacle cell, bits 1 to 4 an
  obstacle neighbour at the top, bottom, left and right. No general theorem depends on
  this encoding.
\<close>

fun dir_weight :: "direction \<Rightarrow> int" where
  "dir_weight TOP = 2"
| "dir_weight BOTTOM = 4"
| "dir_weight LEFT = 8"
| "dir_weight RIGHT = 16"

definition bit_ops :: flag_ops where
  "bit_ops =
     \<lparr>isFluid = (\<lambda>c. c mod 2 = 0), isObstacle = (\<lambda>c. c mod 2 \<noteq> 0),
      isNeighbourFluid = (\<lambda>c d. c div dir_weight d mod 2 = 0),
      isNeighbourObstacle = (\<lambda>c d. c div dir_weight d mod 2 \<noteq> 0)\<rparr>"

text \<open>The entry \<open>A[i][j]\<close> of a field after a kernel has run.\<close>

definition entry_after :: "(fields \<Rightarrow> matrix) \<Rightarrow> int \<Rightarrow> int \<Rightarrow> fields option \<Rightarrow> real option" where
  "entry_after fld i j r = (case r of None \<Rightarrow> None | Some s \<Rightarrow> rd (fld s) i j)"

text \<open>A 2 by 2 grid of fluid cells with the shear flow \<open>U[i][j] = i\<close>, \<open>V[i][j] = j\<close>.\<close>

definition ex_shear :: fields where
  "ex_shear = (zero_fields 0 2 2)
     \<lparr>fU := mk_matrix 0 2 2 (\<lambda>i j. of_int i), fV := mk_matrix 0 2 2 (\<lambda>i j. of_int j),
      fT := mk_matrix 0 2 2 (\<lambda>i j. 1)\<rparr>"

text \<open>A 1 by 1 grid at rest whose buffers \<open>F\<close> and \<open>G\<close> hold 1 everywhere.\<close>

definition ex_stale :: fields where
  "ex_stale = (zero_fields 0 1 1)
     \<lparr>fF := mk_matrix 0 1 1 (\<lambda>i j. 1), fG := mk_matrix 0 1 1 (\<lambda>i j. 1)\<rparr>"

text \<open>
  The shear flow on a 2 by 2 grid where cell (2,1) is an obstacle; the flags of its four
  neighbours record it.
\<close>

definition ex_obstacle :: fields where
  "ex_obstacle = ex_shear\<lparr>fFlags := mk_matrix 0 2 2
     (\<lambda>i j. if i = 2 \<and> j = 1 then 1 else if i = 1 \<and> j = 1 then 16
            else if i = 2 \<and> j = 2 then 4 else if i = 2 \<and> j = 0 then 2
            else if i = 3 \<and> j = 1 then 8 else 0)\<rparr>"

text \<open>
  A 4 by 4 grid with \<open>F[i][j] = i\<close>, \<open>G = 0\<close> and 7 in every entry of \<open>RS\<close>; cell (2,2) is
  an obstacle, every other cell is fluid.
\<close>

definition ex_rs :: fields where
  "ex_rs = (zero_fields 0 4 4)
     \<lparr>fF := mk_matrix 0 4 4 (\<lambda>i j. of_int i), fRS := mk_matrix 0 4 4 (\<lambda>i j. 7),
      fFlags := mk_matrix 0 4 4 (\<lambda>i j. if i = 2 \<and> j = 2 then 1 else 0)\<rparr>"

text \<open>
  A 2 by 2 grid with \<open>F[i][j] = i\<close>, \<open>G[i][j] = j\<close>, \<open>P[i][j] = i * j\<close>, the old velocities
  \<open>U = 5\<close> and \<open>V = 6\<close>, and the obstacle of \<open>ex_obstacle\<close> at cell (2,1).
\<close>

definition ex_uv :: fields where
  "ex_uv = (zero_fields 0 2 2)
     \<lparr>fU := mk_matrix 0 2 2 (\<lambda>i j. 5), fV := mk_matrix 0 2 2 (\<lambda>i j. 6),
      fF := mk_matrix 0 2 2 (\<lambda>i j. of_int i), fG := mk_matrix 0 2 2 (\<lambda>i j. of_int j),
      fP := mk_matrix 0 2 2 (\<lambda>i j. of_int (i * j)),
      fFlags := fFlags ex_obstacle\<rparr>"

text \<open>
  A 1 by 1 grid with \<open>U = 2\<close> and \<open>V = 4\<close> everywhere, and one with \<open>U = 0\<close> and \<open>V = 1\<close>
  everywhere (a flow that is stationary in x).
\<close>

definition ex_dt :: fields where
  "ex_dt = (zero_fields 0 1 1)
     \<lparr>fU := mk_matrix 0 1 1 (\<lambda>i j. 2), fV := mk_matrix 0 1 1 (\<lambda>i j. 4)\<rparr>"


text \<open>
  A 1 by 1 grid at rest whose fields are allocated from index -1 on, one layer more
  than the extended domain, with temperature 1 in cell (0,0) and 0 elsewhere.
\<close>

definition ex_heat :: fields where
  "ex_heat = (zero_fields (- 1) 1 1)
     \<lparr>fT := mk_matrix (- 1) 1 1 (\<lambda>i j. if i = 0 \<and> j = 0 then 1 else 0)\<rparr>"

section \<open>Loops and arrays: general facts\<close>

lemma for_loop_append:
  "for_loop f (xs @ ys) s = (case for_loop f xs s of None \<Rightarrow> None | Some s' \<Rightarrow> for_loop f ys s')"
  by (induction xs arbitrary: s) (auto split: option.splits)

lemma for_loop_map:
  "for_loop f (map g xs) s = for_loop (\<lambda>x. f (g x)) xs s"
  by (induction xs arbitrary: s) (auto split: option.splits)

lemma for_loop_nested:
  "for_loop (\<lambda>i. for_loop (f i) js) is s = for_loop (\<lambda>(i, j). f i j) (List.product is js) s"
  by (induction "is" arbitrary: s) (auto simp: for_loop_append for_loop_map split: option.splits)

lemma for_loop_invariant:
  assumes "for_loop f xs s = Some s'" and "I s"
    and "\<And>x s s'. x \<in> set xs \<Longrightarrow> I s \<Longrightarrow> f x s = Some s' \<Longrightarrow> I s'"
  shows "I s'"
  using assms
proof (induction xs arbitrary: s)
  case Nil
  then show ?case by simp
next
  case (Cons x xs)
  from Cons.prems(1) obtain s1 where s1: "f x s = Some s1" "for_loop f xs s1 = Some s'"
    by (auto split: option.splits)
  have "I s1" using Cons.prems(3)[of x s s1] Cons.prems(2) s1(1) by simp
  show ?case
  proof (rule Cons.IH[OF s1(2) \<open>I s1\<close>])
    fix y t t'
    assume "y \<in> set xs" "I t" "f y t = Some t'"
    then show "I t'" using Cons.prems(3)[of y t t'] by simp
  qed
qed

lemma for_loop_writes:
  assumes "\<And>A x. x \<in> set xs \<Longrightarrow> P A \<Longrightarrow> f x (put A) = Some (put (A ++ d x)) \<and> P (A ++ d x)"
    and "P A"
  shows "for_loop f xs (put A) = Some (put (foldl (++) A (map d xs))) \<and> P (foldl (++) A (map d xs))"
  using assms
proof (induction xs arbitrary: A)
  case Nil
  then show ?case by simp
next
  case (Cons x xs)
  have st: "f x (put A) = Some (put (A ++ d x))" "P (A ++ d x)"
    using Cons.prems(1)[of x A] Cons.prems(2) by simp_all
  have "for_loop f xs (put (A ++ d x)) = Some (put (foldl (++) (A ++ d x) (map d xs)))
      \<and> P (foldl (++) (A ++ d x) (map d xs))"
    using st(2) Cons.prems(1) by (intro Cons.IH) simp_all
  with st(1) show ?case by simp
qed

lemma foldl_map_add_None:
  "\<forall>x\<in>set xs. d x k = None \<Longrightarrow> foldl (++) A (map d xs) k = A k"
  by (induction xs arbitrary: A) (simp_all add: map_add_def)

lemma foldl_map_add_Some:
  "x \<in> set xs \<Longrightarrow> d x k = Some v \<Longrightarrow> \<forall>y\<in>set xs. y \<noteq> x \<longrightarrow> d y k = None
     \<Longrightarrow> foldl (++) A (map d xs) k = Some v"
proof (induction xs arbitrary: A rule: rev_induct)
  case Nil
  then show ?case by simp
next
  case (snoc y ys)
  show ?case
  proof (cases "y = x")
    case True
    with snoc.prems(2) show ?thesis by (simp add: map_add_def)
  next
    case False
    with snoc.prems have "d y k = None" "x \<in> set ys" by auto
    with snoc show ?thesis by (simp add: map_add_def)
  qed
qed

lemma allocated_None:
  assumes "allocated lo imax jmax A"
  shows "(A (i, j) = None) = (\<not> (lo \<le> i \<and> i \<le> imax + 1 \<and> lo \<le> j \<and> j \<le> jmax + 1))"
proof -
  from assms have "(A (i, j) \<noteq> None) = (lo \<le> i \<and> i \<le> imax + 1 \<and> lo \<le> j \<and> j \<le> jmax + 1)"
    unfolding allocated_def by blast
  then show ?thesis by blast
qed

lemma rd_allocated:
  "allocated lo imax jmax A \<Longrightarrow> lo \<le> i \<Longrightarrow> i \<le> imax + 1 \<Longrightarrow> lo \<le> j \<Longrightarrow> j \<le> jmax + 1
     \<Longrightarrow> rd A i j = Some (cell A i j)"
  using allocated_None[of lo imax jmax A i j] by (cases "A (i, j)") (simp_all add: rd_def cell_def)

lemma rd_outside:
  "allocated lo imax jmax A \<Longrightarrow> i < lo \<or> imax + 1 < i \<or> j < lo \<or> jmax + 1 < j
     \<Longrightarrow> rd A i j = None"
  using allocated_None[of lo imax jmax A i j] by (auto simp: rd_def)

lemma wr_allocated:
  "allocated lo imax jmax A \<Longrightarrow> lo \<le> i \<Longrightarrow> i \<le> imax + 1 \<Longrightarrow> lo \<le> j \<Longrightarrow> j \<le> jmax + 1
     \<Longrightarrow> wr A i j v = Some (A((i, j) \<mapsto> v))"
  using allocated_None[of lo imax jmax A i j] by (cases "A (i, j)") (simp_all add: wr_def)

lemma allocated_upd:
  assumes "allocated lo imax jmax A" "lo \<le> i" "i \<le> imax + 1" "lo \<le> j" "j \<le> jmax + 1"
  shows "allocated lo imax jmax (A((i, j) \<mapsto> v))"
  unfolding allocated_def
proof (intro allI)
  fix a b
  show "((A((i, j) \<mapsto> v)) (a, b) \<noteq> None)
      = (lo \<le> a \<and> a \<le> imax + 1 \<and> lo \<le> b \<and> b \<le> jmax + 1)"
    using allocated_None[OF assms(1), of a b] assms(2-5) by auto
qed

lemma secondDerivativeDx_value:
  "allocated lo imax jmax A \<Longrightarrow> lo + 1 \<le> i \<Longrightarrow> i \<le> imax \<Longrightarrow> lo \<le> j \<Longrightarrow> j \<le> jmax + 1
     \<Longrightarrow> secondDerivativeDx A i j h = Some (d2_dx A i j h)"
  by (simp add: secondDerivativeDx_def d2_dx_def rd_allocated power2_eq_square)

lemma secondDerivativeDy_value:
  "allocated lo imax jmax A \<Longrightarrow> lo \<le> i \<Longrightarrow> i \<le> imax + 1 \<Longrightarrow> lo + 1 \<le> j \<Longrightarrow> j \<le> jmax
     \<Longrightarrow> secondDerivativeDy A i j h = Some (d2_dy A i j h)"
  by (simp add: secondDerivativeDy_def d2_dy_def rd_allocated power2_eq_square)

lemma squareDerivativeDx_value:
  "allocated lo imax jmax A \<Longrightarrow> lo + 1 \<le> i \<Longrightarrow> i \<le> imax \<Longrightarrow> lo \<le> j \<Longrightarrow> j \<le> jmax + 1
     \<Longrightarrow> squareDerivativeDx A i j h alpha = Some (du2_dx A i j h alpha)"
  by (simp add: squareDerivativeDx_def du2_dx_def rd_allocated)

lemma squareDerivativeDy_value:
  "allocated lo imax jmax A \<Longrightarrow> lo \<le> i \<Longrightarrow> i \<le> imax + 1 \<Longrightarrow> lo + 1 \<le> j \<Longrightarrow> j \<le> jmax
     \<Longrightarrow> squareDerivativeDy A i j h alpha = Some (dv2_dy A i j h alpha)"
  by (simp add: squareDerivativeDy_def dv2_dy_def rd_allocated)

lemma productDerivativeDy_value:
  "allocated lo imax jmax U \<Longrightarrow> allocated lo imax jmax V
     \<Longrightarrow> lo \<le> i \<Longrightarrow> i \<le> imax \<Longrightarrow> lo + 1 \<le> j \<Longrightarrow> j \<le> jmax
     \<Longrightarrow> productDerivativeDy U V i j h alpha = Some (duv_dy U V i j h alpha)"
  by (simp add: productDerivativeDy_def duv_dy_def rd_allocated)

lemma productDerivativeDx_value:
  "allocated lo imax jmax U \<Longrightarrow> allocated lo imax jmax V
     \<Longrightarrow> lo + 1 \<le> i \<Longrightarrow> i \<le> imax \<Longrightarrow> lo \<le> j \<Longrightarrow> j \<le> jmax
     \<Longrightarrow> productDerivativeDx U V i j h alpha = Some (duv_dx U V i j h alpha)"
  by (simp add: productDerivativeDx_def duv_dx_def rd_allocated)

lemma computeF_value:
  "allocated 0 imax jmax U \<Longrightarrow> allocated 0 imax jmax V \<Longrightarrow> allocated 0 imax jmax T
     \<Longrightarrow> 1 \<le> i \<Longrightarrow> i \<le> imax - 1 \<Longrightarrow> 1 \<le> j \<Longrightarrow> j \<le> jmax
     \<Longrightarrow> computeF Re' GX alpha beta dt dx dy U V T i j
         = Some (F_formula Re' GX alpha beta dt dx dy U V T i j)"
  by (simp add: computeF_def F_formula_def rd_allocated secondDerivativeDx_value
      secondDerivativeDy_value squareDerivativeDx_value productDerivativeDy_value)

lemma computeG_value:
  "allocated 0 imax jmax U \<Longrightarrow> allocated 0 imax jmax V \<Longrightarrow> allocated 0 imax jmax T
     \<Longrightarrow> 1 \<le> i \<Longrightarrow> i \<le> imax \<Longrightarrow> 1 \<le> j \<Longrightarrow> j \<le> jmax - 1
     \<Longrightarrow> computeG Re' GY alpha beta dt dx dy U V T i j
         = Some (G_formula Re' GY alpha beta dt dx dy U V T i j)"
  by (simp add: computeG_def G_formula_def rd_allocated secondDerivativeDx_value
      secondDerivativeDy_value squareDerivativeDy_value productDerivativeDx_value)

section \<open>The momentum kernel: what every cell holds afterwards\<close>

lemma allocated_map_add1:
  assumes "allocated lo imax jmax A" "lo \<le> i" "i \<le> imax + 1" "lo \<le> j" "j \<le> jmax + 1"
  shows "allocated lo imax jmax (A ++ [(i, j) \<mapsto> v])"
  using allocated_upd[OF assms] by simp

lemma fg_boundary_G_step:
  assumes "wf_fields imax jmax s" "allocated 0 imax jmax A" "1 \<le> i" "i \<le> imax"
  shows "fg_boundary_G jmax i (s\<lparr>fG := A\<rparr>)
           = Some (s\<lparr>fG := A ++ delta_boundary_G (fV s) jmax i\<rparr>)
         \<and> allocated 0 imax jmax (A ++ delta_boundary_G (fV s) jmax i)"
proof -
  from assms(1) have V: "allocated 0 imax jmax (fV s)" and jm: "1 \<le> jmax"
    by (simp_all add: wf_fields_def)
  have A1: "allocated 0 imax jmax (A((i, 0) \<mapsto> cell (fV s) i 0))"
    using assms jm by (intro allocated_upd) simp_all
  have A2: "allocated 0 imax jmax (A((i, 0) \<mapsto> cell (fV s) i 0, (i, jmax) \<mapsto> cell (fV s) i jmax))"
    using A1 assms jm by (intro allocated_upd) simp_all
  have r0: "rd (fV s) i 0 = Some (cell (fV s) i 0)"
    using V assms jm by (intro rd_allocated[of 0 imax jmax]) simp_all
  have r1: "rd (fV s) i jmax = Some (cell (fV s) i jmax)"
    using V assms jm by (intro rd_allocated[of 0 imax jmax]) simp_all
  have w0: "wr A i 0 (cell (fV s) i 0) = Some (A((i, 0) \<mapsto> cell (fV s) i 0))"
    using assms jm by (intro wr_allocated[of 0 imax jmax]) simp_all
  have w1: "wr (A((i, 0) \<mapsto> cell (fV s) i 0)) i jmax (cell (fV s) i jmax)
      = Some (A((i, 0) \<mapsto> cell (fV s) i 0, (i, jmax) \<mapsto> cell (fV s) i jmax))"
    using A1 assms jm by (intro wr_allocated[of 0 imax jmax]) simp_all
  show ?thesis
    using A2 by (simp add: fg_boundary_G_def set_G_def r0 r1 w0 w1 delta_boundary_G_def)
qed

lemma fg_boundary_F_step:
  assumes "wf_fields imax jmax s" "allocated 0 imax jmax A" "1 \<le> j" "j \<le> jmax"
  shows "fg_boundary_F imax j (s\<lparr>fF := A\<rparr>)
           = Some (s\<lparr>fF := A ++ delta_boundary_F (fU s) imax j\<rparr>)
         \<and> allocated 0 imax jmax (A ++ delta_boundary_F (fU s) imax j)"
proof -
  from assms(1) have U: "allocated 0 imax jmax (fU s)" and im: "1 \<le> imax"
    by (simp_all add: wf_fields_def)
  have A1: "allocated 0 imax jmax (A((0, j) \<mapsto> cell (fU s) 0 j))"
    using assms im by (intro allocated_upd) simp_all
  have A2: "allocated 0 imax jmax (A((0, j) \<mapsto> cell (fU s) 0 j, (imax, j) \<mapsto> cell (fU s) imax j))"
    using A1 assms im by (intro allocated_upd) simp_all
  have r0: "rd (fU s) 0 j = Some (cell (fU s) 0 j)"
    using U assms im by (intro rd_allocated[of 0 imax jmax]) simp_all
  have r1: "rd (fU s) imax j = Some (cell (fU s) imax j)"
    using U assms im by (intro rd_allocated[of 0 imax jmax]) simp_all
  have w0: "wr A 0 j (cell (fU s) 0 j) = Some (A((0, j) \<mapsto> cell (fU s) 0 j))"
    using assms im by (intro wr_allocated[of 0 imax jmax]) simp_all
  have w1: "wr (A((0, j) \<mapsto> cell (fU s) 0 j)) imax j (cell (fU s) imax j)
      = Some (A((0, j) \<mapsto> cell (fU s) 0 j, (imax, j) \<mapsto> cell (fU s) imax j))"
    using A1 assms im by (intro wr_allocated[of 0 imax jmax]) simp_all
  show ?thesis
    using A2 by (simp add: fg_boundary_F_def set_F_def r0 r1 w0 w1 delta_boundary_F_def)
qed

lemma fg_cell_F_step:
  assumes "wf_fields imax jmax s" "allocated 0 imax jmax A"
    "1 \<le> i" "i \<le> imax - 1" "1 \<le> j" "j \<le> jmax"
  shows "fg_cell_F ops Re' GX alpha beta dt dx dy i j (s\<lparr>fF := A\<rparr>)
           = Some (s\<lparr>fF := A ++ [(i, j) \<mapsto> F_value ops Re' GX alpha beta dt dx dy s i j]\<rparr>)
         \<and> allocated 0 imax jmax (A ++ [(i, j) \<mapsto> F_value ops Re' GX alpha beta dt dx dy s i j])"
proof -
  from assms(1) have al: "allocated 0 imax jmax (fU s)" "allocated 0 imax jmax (fV s)"
      "allocated 0 imax jmax (fT s)" "allocated 0 imax jmax (fFlags s)"
    by (simp_all add: wf_fields_def)
  have fl: "rd (fFlags s) i j = Some (cell (fFlags s) i j)"
    using al(4) assms by (intro rd_allocated[of 0 imax jmax]) simp_all
  have u: "rd (fU s) i j = Some (cell (fU s) i j)"
    using al(1) assms by (intro rd_allocated[of 0 imax jmax]) simp_all
  have c: "computeF Re' GX alpha beta dt dx dy (fU s) (fV s) (fT s) i j
      = Some (F_formula Re' GX alpha beta dt dx dy (fU s) (fV s) (fT s) i j)"
    using al assms by (intro computeF_value[of imax jmax]) simp_all
  have w: "wr A i j v = Some (A((i, j) \<mapsto> v))" for v
    using assms by (intro wr_allocated[of 0 imax jmax]) simp_all
  have A1: "allocated 0 imax jmax (A ++ [(i, j) \<mapsto> v])" for v
    using assms by (intro allocated_map_add1) simp_all
  show ?thesis
    using A1 by (simp add: fg_cell_F_def set_F_def fl u c w F_value_def)
qed

lemma fg_cell_G_step:
  assumes "wf_fields imax jmax s" "allocated 0 imax jmax A"
    "1 \<le> i" "i \<le> imax" "1 \<le> j" "j \<le> jmax - 1"
  shows "fg_cell_G ops Re' GY alpha beta dt dx dy i j (s\<lparr>fG := A\<rparr>)
           = Some (s\<lparr>fG := A ++ [(i, j) \<mapsto> G_value ops Re' GY alpha beta dt dx dy s i j]\<rparr>)
         \<and> allocated 0 imax jmax (A ++ [(i, j) \<mapsto> G_value ops Re' GY alpha beta dt dx dy s i j])"
proof -
  from assms(1) have al: "allocated 0 imax jmax (fU s)" "allocated 0 imax jmax (fV s)"
      "allocated 0 imax jmax (fT s)" "allocated 0 imax jmax (fFlags s)"
    by (simp_all add: wf_fields_def)
  have fl: "rd (fFlags s) i j = Some (cell (fFlags s) i j)"
    using al(4) assms by (intro rd_allocated[of 0 imax jmax]) simp_all
  have u: "rd (fV s) i j = Some (cell (fV s) i j)"
    using al(2) assms by (intro rd_allocated[of 0 imax jmax]) simp_all
  have c: "computeG Re' GY alpha beta dt dx dy (fU s) (fV s) (fT s) i j
      = Some (G_formula Re' GY alpha beta dt dx dy (fU s) (fV s) (fT s) i j)"
    using al assms by (intro computeG_value[of imax jmax]) simp_all
  have w: "wr A i j v = Some (A((i, j) \<mapsto> v))" for v
    using assms by (intro wr_allocated[of 0 imax jmax]) simp_all
  have A1: "allocated 0 imax jmax (A ++ [(i, j) \<mapsto> v])" for v
    using assms by (intro allocated_map_add1) simp_all
  show ?thesis
    using A1 by (simp add: fg_cell_G_def set_G_def fl u c w G_value_def)
qed

lemma calculate_fg_result:
  assumes wf: "wf_fields imax jmax s"
  shows "calculate_fg ops Re' GX GY alpha beta dt dx dy imax jmax s
     = Some (s\<lparr>fF := fg_F_post ops Re' GX alpha beta dt dx dy imax jmax s,
              fG := fg_G_post ops Re' GY alpha beta dt dx dy imax jmax s\<rparr>)"
proof -
  let ?P = "allocated 0 imax jmax"
  define G1 where "G1 = foldl (++) (fG s) (map (delta_boundary_G (fV s) jmax) [1..imax])"
  define F2 where "F2 = foldl (++) (fF s) (map (delta_boundary_F (fU s) imax) [1..jmax])"
  define s1 where "s1 = s\<lparr>fG := G1\<rparr>"
  from wf have aF: "?P (fF s)" and aG: "?P (fG s)" by (simp_all add: wf_fields_def)
  have wf1: "wf_fields imax jmax (s\<lparr>fG := A\<rparr>)" if "?P A" for A
    using wf that by (simp add: wf_fields_def)
  have l1: "for_loop (fg_boundary_G jmax) [1..imax] (s\<lparr>fG := fG s\<rparr>) = Some (s\<lparr>fG := G1\<rparr>) \<and> ?P G1"
    unfolding G1_def
  proof (rule for_loop_writes[where put = "\<lambda>A. s\<lparr>fG := A\<rparr>" and P = ?P])
    fix A :: matrix and i
    assume "i \<in> set [1..imax]" and A: "?P A"
    then have r: "1 \<le> i" "i \<le> imax" by auto
    show "fg_boundary_G jmax i (s\<lparr>fG := A\<rparr>)
        = Some (s\<lparr>fG := A ++ delta_boundary_G (fV s) jmax i\<rparr>)
        \<and> ?P (A ++ delta_boundary_G (fV s) jmax i)"
      by (rule fg_boundary_G_step[OF wf A r])
  qed (rule aG)
  then have l1': "for_loop (fg_boundary_G jmax) [1..imax] s = Some s1" and aG1: "?P G1"
    by (simp_all add: s1_def)
  have wfs1: "wf_fields imax jmax s1" using wf1[OF aG1] by (simp add: s1_def)
  have l2: "for_loop (fg_boundary_F imax) [1..jmax] (s1\<lparr>fF := fF s1\<rparr>) = Some (s1\<lparr>fF := F2\<rparr>) \<and> ?P F2"
    unfolding F2_def
  proof -
    have "for_loop (fg_boundary_F imax) [1..jmax] (s1\<lparr>fF := fF s\<rparr>)
        = Some (s1\<lparr>fF := foldl (++) (fF s) (map (delta_boundary_F (fU s1) imax) [1..jmax])\<rparr>)
        \<and> ?P (foldl (++) (fF s) (map (delta_boundary_F (fU s1) imax) [1..jmax]))"
    proof (rule for_loop_writes[where put = "\<lambda>A. s1\<lparr>fF := A\<rparr>" and P = ?P])
      fix A :: matrix and j
      assume "j \<in> set [1..jmax]" and A: "?P A"
      then have r: "1 \<le> j" "j \<le> jmax" by auto
      show "fg_boundary_F imax j (s1\<lparr>fF := A\<rparr>)
          = Some (s1\<lparr>fF := A ++ delta_boundary_F (fU s1) imax j\<rparr>)
          \<and> ?P (A ++ delta_boundary_F (fU s1) imax j)"
        by (rule fg_boundary_F_step[OF wfs1 A r])
    qed (rule aF)
    then show "for_loop (fg_boundary_F imax) [1..jmax] (s1\<lparr>fF := fF s1\<rparr>) =
      Some (s1\<lparr>fF := foldl (++) (fF s) (map (delta_boundary_F (fU s) imax) [1..jmax])\<rparr>) \<and>
      ?P (foldl (++) (fF s) (map (delta_boundary_F (fU s) imax) [1..jmax]))"
      by (simp add: s1_def)
  qed
  define s2 where "s2 = s1\<lparr>fF := F2\<rparr>"
  from l2 have l2': "for_loop (fg_boundary_F imax) [1..jmax] s1 = Some s2" and aF2: "?P F2"
    by (simp_all add: s2_def)
  have wfs2: "wf_fields imax jmax s2" using wfs1 aF2 by (simp add: s2_def wf_fields_def)
  let ?dF = "\<lambda>(i, j). [(i, j) \<mapsto> F_value ops Re' GX alpha beta dt dx dy s i j]"
  let ?dG = "\<lambda>(i, j). [(i, j) \<mapsto> G_value ops Re' GY alpha beta dt dx dy s i j]"
  have FV: "F_value ops Re' GX alpha beta dt dx dy s2 = F_value ops Re' GX alpha beta dt dx dy s"
    by (intro ext) (simp add: F_value_def s2_def s1_def)
  define F3 where "F3 = foldl (++) F2 (map ?dF (List.product [1..imax - 1] [1..jmax]))"
  have l3: "for_loop (\<lambda>(i, j). fg_cell_F ops Re' GX alpha beta dt dx dy i j)
      (List.product [1..imax - 1] [1..jmax]) (s2\<lparr>fF := F2\<rparr>) = Some (s2\<lparr>fF := F3\<rparr>) \<and> ?P F3"
    unfolding F3_def
  proof (rule for_loop_writes[where put = "\<lambda>A. s2\<lparr>fF := A\<rparr>" and P = ?P])
    fix A :: matrix and x :: "int \<times> int"
    assume x: "x \<in> set (List.product [1..imax - 1] [1..jmax])" and A: "?P A"
    obtain i j where ij: "x = (i, j)" by (cases x)
    with x have r: "1 \<le> i" "i \<le> imax - 1" "1 \<le> j" "j \<le> jmax" by auto
    show "(case x of (i, j) \<Rightarrow> fg_cell_F ops Re' GX alpha beta dt dx dy i j) (s2\<lparr>fF := A\<rparr>)
        = Some (s2\<lparr>fF := A ++ ?dF x\<rparr>) \<and> ?P (A ++ ?dF x)"
      using fg_cell_F_step[OF wfs2 A r, of ops Re' GX alpha beta dt dx dy] FV
      by (simp add: ij)
  qed (rule aF2)
  define s3 where "s3 = s2\<lparr>fF := F3\<rparr>"
  have s2F: "s2\<lparr>fF := F2\<rparr> = s2" by (simp add: s2_def)
  from l3 have l3': "for_loop (\<lambda>i. for_loop (fg_cell_F ops Re' GX alpha beta dt dx dy i) [1..jmax])
             [1..imax - 1] s2 = Some s3" and aF3: "?P F3"
    by (simp_all add: for_loop_nested s3_def s2F)
  have wfs3: "wf_fields imax jmax s3" using wfs2 aF3 by (simp add: s3_def wf_fields_def)
  have GV: "G_value ops Re' GY alpha beta dt dx dy s3 = G_value ops Re' GY alpha beta dt dx dy s"
    by (intro ext) (simp add: G_value_def s3_def s2_def s1_def)
  define G4 where "G4 = foldl (++) G1 (map ?dG (List.product [1..imax] [1..jmax - 1]))"
  have l4: "for_loop (\<lambda>(i, j). fg_cell_G ops Re' GY alpha beta dt dx dy i j)
      (List.product [1..imax] [1..jmax - 1]) (s3\<lparr>fG := G1\<rparr>) = Some (s3\<lparr>fG := G4\<rparr>) \<and> ?P G4"
    unfolding G4_def
  proof (rule for_loop_writes[where put = "\<lambda>A. s3\<lparr>fG := A\<rparr>" and P = ?P])
    fix A :: matrix and x :: "int \<times> int"
    assume x: "x \<in> set (List.product [1..imax] [1..jmax - 1])" and A: "?P A"
    obtain i j where ij: "x = (i, j)" by (cases x)
    with x have r: "1 \<le> i" "i \<le> imax" "1 \<le> j" "j \<le> jmax - 1" by auto
    show "(case x of (i, j) \<Rightarrow> fg_cell_G ops Re' GY alpha beta dt dx dy i j) (s3\<lparr>fG := A\<rparr>)
        = Some (s3\<lparr>fG := A ++ ?dG x\<rparr>) \<and> ?P (A ++ ?dG x)"
      using fg_cell_G_step[OF wfs3 A r, of ops Re' GY alpha beta dt dx dy] GV
      by (simp add: ij)
  qed (rule aG1)
  have s3G: "s3\<lparr>fG := G1\<rparr> = s3" by (simp add: s3_def s2_def s1_def)
  from l4 have l4': "for_loop (\<lambda>i. for_loop (fg_cell_G ops Re' GY alpha beta dt dx dy i) [1..jmax - 1])
       [1..imax] s3 = Some (s3\<lparr>fG := G4\<rparr>)"
    by (simp add: for_loop_nested s3G)
  have "calculate_fg ops Re' GX GY alpha beta dt dx dy imax jmax s = Some (s3\<lparr>fG := G4\<rparr>)"
    by (simp add: calculate_fg_def l1' l2' l3' l4')
  also have "s3\<lparr>fG := G4\<rparr> = s\<lparr>fF := F3, fG := G4\<rparr>"
    by (simp add: s3_def s2_def s1_def)
  also have "F3 = fg_F_post ops Re' GX alpha beta dt dx dy imax jmax s"
    by (simp add: F3_def F2_def fg_F_post_def)
  also have "G4 = fg_G_post ops Re' GY alpha beta dt dx dy imax jmax s"
    by (simp add: G4_def G1_def fg_G_post_def)
  finally show ?thesis .
qed

lemma fg_F_post_interior:
  assumes "1 \<le> i" "i \<le> imax - 1" "1 \<le> j" "j \<le> jmax"
  shows "fg_F_post ops Re' GX alpha beta dt dx dy imax jmax s (i, j)
     = Some (F_value ops Re' GX alpha beta dt dx dy s i j)"
  unfolding fg_F_post_def
  by (rule foldl_map_add_Some[where x = "(i, j)"]) (use assms in auto)

lemma fg_F_post_boundary:
  assumes "1 \<le> imax" "1 \<le> j" "j \<le> jmax" "i = 0 \<or> i = imax"
  shows "fg_F_post ops Re' GX alpha beta dt dx dy imax jmax s (i, j) = Some (cell (fU s) i j)"
proof -
  have "fg_F_post ops Re' GX alpha beta dt dx dy imax jmax s (i, j)
      = foldl (++) (fF s) (map (delta_boundary_F (fU s) imax) [1..jmax]) (i, j)"
    unfolding fg_F_post_def
    by (rule foldl_map_add_None) (use assms in auto)
  also have "\<dots> = Some (cell (fU s) i j)"
    by (rule foldl_map_add_Some[where x = j]) (use assms in \<open>auto simp: delta_boundary_F_def\<close>)
  finally show ?thesis .
qed

lemma fg_F_post_other:
  assumes "\<not> (1 \<le> j \<and> j \<le> jmax \<and> (i = 0 \<or> i = imax \<or> (1 \<le> i \<and> i \<le> imax - 1)))"
  shows "fg_F_post ops Re' GX alpha beta dt dx dy imax jmax s (i, j) = fF s (i, j)"
proof -
  have "fg_F_post ops Re' GX alpha beta dt dx dy imax jmax s (i, j)
      = foldl (++) (fF s) (map (delta_boundary_F (fU s) imax) [1..jmax]) (i, j)"
    unfolding fg_F_post_def
    by (rule foldl_map_add_None) (use assms in auto)
  also have "\<dots> = fF s (i, j)"
    by (rule foldl_map_add_None) (use assms in \<open>auto simp: delta_boundary_F_def\<close>)
  finally show ?thesis .
qed

lemma fg_G_post_interior:
  assumes "1 \<le> i" "i \<le> imax" "1 \<le> j" "j \<le> jmax - 1"
  shows "fg_G_post ops Re' GY alpha beta dt dx dy imax jmax s (i, j)
     = Some (G_value ops Re' GY alpha beta dt dx dy s i j)"
  unfolding fg_G_post_def
  by (rule foldl_map_add_Some[where x = "(i, j)"]) (use assms in auto)

lemma fg_G_post_boundary:
  assumes "1 \<le> jmax" "1 \<le> i" "i \<le> imax" "j = 0 \<or> j = jmax"
  shows "fg_G_post ops Re' GY alpha beta dt dx dy imax jmax s (i, j) = Some (cell (fV s) i j)"
proof -
  have "fg_G_post ops Re' GY alpha beta dt dx dy imax jmax s (i, j)
      = foldl (++) (fG s) (map (delta_boundary_G (fV s) jmax) [1..imax]) (i, j)"
    unfolding fg_G_post_def
    by (rule foldl_map_add_None) (use assms in auto)
  also have "\<dots> = Some (cell (fV s) i j)"
    by (rule foldl_map_add_Some[where x = i]) (use assms in \<open>auto simp: delta_boundary_G_def\<close>)
  finally show ?thesis .
qed

lemma fg_G_post_other:
  assumes "\<not> (1 \<le> i \<and> i \<le> imax \<and> (j = 0 \<or> j = jmax \<or> (1 \<le> j \<and> j \<le> jmax - 1)))"
  shows "fg_G_post ops Re' GY alpha beta dt dx dy imax jmax s (i, j) = fG s (i, j)"
proof -
  have "fg_G_post ops Re' GY alpha beta dt dx dy imax jmax s (i, j)
      = foldl (++) (fG s) (map (delta_boundary_G (fV s) jmax) [1..imax]) (i, j)"
    unfolding fg_G_post_def
    by (rule foldl_map_add_None) (use assms in auto)
  also have "\<dots> = fG s (i, j)"
    by (rule foldl_map_add_None) (use assms in \<open>auto simp: delta_boundary_G_def\<close>)
  finally show ?thesis .
qed

section \<open>Facts about the concrete inputs\<close>

lemma allocated_mk_matrix: "allocated lo imax jmax (mk_matrix lo imax jmax f)"
  by (simp add: allocated_def mk_matrix_def)

lemma cell_mk_matrix:
  "lo \<le> i \<Longrightarrow> i \<le> imax + 1 \<Longrightarrow> lo \<le> j \<Longrightarrow> j \<le> jmax + 1 \<Longrightarrow> cell (mk_matrix lo imax jmax f) i j = f i j"
  by (simp add: cell_def mk_matrix_def)

lemma wf_zero_fields: "1 \<le> imax \<Longrightarrow> 1 \<le> jmax \<Longrightarrow> wf_fields imax jmax (zero_fields 0 imax jmax)"
  by (simp add: wf_fields_def zero_fields_def allocated_mk_matrix)

lemma wf_ex_shear: "wf_fields 2 2 ex_shear"
  using wf_zero_fields[of 2 2] by (simp add: wf_fields_def ex_shear_def allocated_mk_matrix)

lemma wf_ex_stale: "wf_fields 1 1 ex_stale"
  using wf_zero_fields[of 1 1] by (simp add: wf_fields_def ex_stale_def allocated_mk_matrix)

lemma wf_ex_obstacle: "wf_fields 2 2 ex_obstacle"
  using wf_ex_shear by (simp add: wf_fields_def ex_obstacle_def allocated_mk_matrix)

lemma rd_mk_matrix:
  "lo \<le> i \<Longrightarrow> i \<le> imax + 1 \<Longrightarrow> lo \<le> j \<Longrightarrow> j \<le> jmax + 1
     \<Longrightarrow> rd (mk_matrix lo imax jmax f) i j = Some (f i j)"
  by (simp add: rd_def mk_matrix_def)

lemma wf_ex_rs: "wf_fields 4 4 ex_rs"
  using wf_zero_fields[of 4 4] by (simp add: wf_fields_def ex_rs_def allocated_mk_matrix)

lemma wf_ex_uv: "wf_fields 2 2 ex_uv"
  using wf_zero_fields[of 2 2]
  by (simp add: wf_fields_def ex_uv_def ex_obstacle_def allocated_mk_matrix)

lemma abs_max_const:
  assumes "0 \<le> imax" "0 \<le> jmax"
  shows "abs_max (mk_matrix 0 imax jmax (\<lambda>i j. c)) imax jmax = \<bar>c\<bar>"
proof -
  have "(\<lambda>(i, j). \<bar>cell (mk_matrix 0 imax jmax (\<lambda>i j. c)) i j\<bar>) ` ({0..imax} \<times> {0..jmax}) = {\<bar>c\<bar>}"
    using assms by (auto simp: cell_mk_matrix image_def intro!: exI[of _ 0])
  then show ?thesis by (simp add: abs_max_def)
qed

lemma wf_ex_dt: "wf_fields 1 1 ex_dt"
  using wf_zero_fields[of 1 1] by (simp add: wf_fields_def ex_dt_def allocated_mk_matrix)


lemma abs_max_ex_dt: "abs_max (fU ex_dt) 1 1 = 2" "abs_max (fV ex_dt) 1 1 = 4"
  by (simp_all add: ex_dt_def abs_max_const)


lemma bit_ops_dichotomy:
  "\<forall>c. isFluid bit_ops c = (\<not> isObstacle bit_ops c)"
  "\<forall>c d. isNeighbourFluid bit_ops c d = (\<not> isNeighbourObstacle bit_ops c d)"
  by (simp_all add: bit_ops_def)

section \<open>Claims about the momentum kernel\<close>

text \<open>
  Claim C1. On well-formed fields of equal extent and for \<open>Re \<noteq> 0\<close>, \<^verbatim>\<open>calculate_fg\<close>
  returns, and afterwards every edge \<open>(i, j)\<close> with \<open>i \<in> [1, imax-1]\<close>, \<open>j \<in> [1, jmax]\<close>
  whose cell and right neighbour are fluid holds
  \<open>F[i][j] = U[i][j] + dt * ((1/Re) * (d2u/dx2 + d2u/dy2) - d(u^2)/dx - d(uv)/dy
  + (1 - beta * T[i][j]) * GX)\<close>, with the central second differences and the
  alpha-blended flux differences of the specification; likewise \<open>G[i][j]\<close> with \<open>GY\<close>
  for \<open>i \<in> [1, imax]\<close>, \<open>j \<in> [1, jmax-1]\<close> and the top neighbour. The flag predicates are
  those of the specification's data model: a cell, and each neighbour, is either fluid
  or an obstacle.
\<close>

theorem calculate_fg_momentum:
  assumes "wf_fields imax jmax s" and "Re' \<noteq> 0"
    and "\<forall>c. isFluid ops c = (\<not> isObstacle ops c)"
    and "\<forall>c d. isNeighbourFluid ops c d = (\<not> isNeighbourObstacle ops c d)"
  shows "\<exists>s'. calculate_fg ops Re' GX GY alpha beta dt dx dy imax jmax s = Some s' \<and>
    (\<forall>i j. 1 \<le> i \<and> i \<le> imax - 1 \<and> 1 \<le> j \<and> j \<le> jmax
        \<and> isFluid ops (cell (fFlags s) i j) \<and> isNeighbourFluid ops (cell (fFlags s) i j) RIGHT
      \<longrightarrow> rd (fF s') i j = Some (cell (fU s) i j + dt *
            ((1 / Re') * (d2_dx (fU s) i j dx + d2_dy (fU s) i j dy)
             - du2_dx (fU s) i j dx alpha - duv_dy (fU s) (fV s) i j dy alpha
             + (1 - beta * cell (fT s) i j) * GX))) \<and>
    (\<forall>i j. 1 \<le> i \<and> i \<le> imax \<and> 1 \<le> j \<and> j \<le> jmax - 1
        \<and> isFluid ops (cell (fFlags s) i j) \<and> isNeighbourFluid ops (cell (fFlags s) i j) TOP
      \<longrightarrow> rd (fG s') i j = Some (cell (fV s) i j + dt *
            ((1 / Re') * (d2_dx (fV s) i j dx + d2_dy (fV s) i j dy)
             - duv_dx (fU s) (fV s) i j dx alpha - dv2_dy (fV s) i j dy alpha
             + (1 - beta * cell (fT s) i j) * GY)))"
  using assms(3,4)
  by (simp add: calculate_fg_result[OF assms(1)] rd_def fg_F_post_interior fg_G_post_interior
      F_value_def G_value_def F_formula_def G_formula_def)

theorem calculate_fg_momentum_witness:
  "wf_fields 2 2 ex_shear \<and> (2::real) \<noteq> 0
   \<and> (\<forall>c. isFluid bit_ops c = (\<not> isObstacle bit_ops c))
   \<and> (\<forall>c d. isNeighbourFluid bit_ops c d = (\<not> isNeighbourObstacle bit_ops c d))
   \<and> (\<exists>s'. calculate_fg bit_ops 2 1 3 (1/2) (1/2) (1/4) 1 1 2 2 ex_shear = Some s'
         \<and> rd (fF s') 1 1 = Some (7/16) \<and> rd (fG s') 1 1 = Some (11/16))"
proof -
  have two: "(2::real) \<noteq> 0" by simp
  from calculate_fg_momentum[OF wf_ex_shear two bit_ops_dichotomy, of 1 3 "1/2" "1/2" "1/4" 1 1]
  obtain s' where s': "calculate_fg bit_ops 2 1 3 (1/2) (1/2) (1/4) 1 1 2 2 ex_shear = Some s'"
    and F: "\<And>i j. 1 \<le> i \<and> i \<le> 2 - 1 \<and> 1 \<le> j \<and> j \<le> 2
        \<and> isFluid bit_ops (cell (fFlags ex_shear) i j) \<and> isNeighbourFluid bit_ops (cell (fFlags ex_shear) i j) RIGHT
      \<Longrightarrow> rd (fF s') i j = Some (cell (fU ex_shear) i j + 1/4 *
            ((1 / 2) * (d2_dx (fU ex_shear) i j 1 + d2_dy (fU ex_shear) i j 1)
             - du2_dx (fU ex_shear) i j 1 (1/2) - duv_dy (fU ex_shear) (fV ex_shear) i j 1 (1/2)
             + (1 - 1/2 * cell (fT ex_shear) i j) * 1))"
    and G: "\<And>i j. 1 \<le> i \<and> i \<le> 2 \<and> 1 \<le> j \<and> j \<le> 2 - 1
        \<and> isFluid bit_ops (cell (fFlags ex_shear) i j) \<and> isNeighbourFluid bit_ops (cell (fFlags ex_shear) i j) TOP
      \<Longrightarrow> rd (fG s') i j = Some (cell (fV ex_shear) i j + 1/4 *
            ((1 / 2) * (d2_dx (fV ex_shear) i j 1 + d2_dy (fV ex_shear) i j 1)
             - duv_dx (fU ex_shear) (fV ex_shear) i j 1 (1/2) - dv2_dy (fV ex_shear) i j 1 (1/2)
             + (1 - 1/2 * cell (fT ex_shear) i j) * 3))"
    by blast
  have c: "cell (fFlags ex_shear) 1 1 = 0"
    by (simp add: ex_shear_def zero_fields_def cell_mk_matrix)
  have f: "isFluid bit_ops 0" "isNeighbourFluid bit_ops 0 RIGHT" "isNeighbourFluid bit_ops 0 TOP"
    by (simp_all add: bit_ops_def)
  have "rd (fF s') 1 1 = Some (7/16)"
    using F[of 1 1] c f
    by (simp add: ex_shear_def cell_mk_matrix d2_dx_def d2_dy_def du2_dx_def duv_dy_def power2_eq_square)
  moreover have "rd (fG s') 1 1 = Some (11/16)"
    using G[of 1 1] c f
    by (simp add: ex_shear_def cell_mk_matrix d2_dx_def d2_dy_def dv2_dy_def duv_dx_def power2_eq_square)
  ultimately show ?thesis using wf_ex_shear bit_ops_dichotomy s' by simp
qed

text \<open>
  Claim C5, amended. On well-formed fields \<^verbatim>\<open>calculate_fg\<close> returns, leaves \<open>U\<close> and \<open>V\<close>
  as they were, and afterwards \<open>G[i][0] = V[i][0]\<close> and \<open>G[i][jmax] = V[i][jmax]\<close> for
  every \<open>i \<in> [1, imax]\<close>, and \<open>F[0][j] = U[0][j]\<close> and \<open>F[imax][j] = U[imax][j]\<close> for every
  \<open>j \<in> [1, jmax]\<close>, whatever the interior contents and the flags are.
\<close>

theorem calculate_fg_boundary_copy:
  assumes "wf_fields imax jmax s"
  shows "\<exists>s'. calculate_fg ops Re' GX GY alpha beta dt dx dy imax jmax s = Some s' \<and>
    fU s' = fU s \<and> fV s' = fV s \<and>
    (\<forall>i. 1 \<le> i \<and> i \<le> imax
      \<longrightarrow> rd (fG s') i 0 = Some (cell (fV s) i 0) \<and> rd (fG s') i jmax = Some (cell (fV s) i jmax)) \<and>
    (\<forall>j. 1 \<le> j \<and> j \<le> jmax
      \<longrightarrow> rd (fF s') 0 j = Some (cell (fU s) 0 j) \<and> rd (fF s') imax j = Some (cell (fU s) imax j))"
proof -
  from assms have "1 \<le> imax" "1 \<le> jmax" by (simp_all add: wf_fields_def)
  then show ?thesis
    by (simp add: calculate_fg_result[OF assms] rd_def fg_F_post_boundary fg_G_post_boundary)
qed

theorem calculate_fg_boundary_copy_witness:
  "wf_fields 2 2 ex_shear
   \<and> (\<exists>s'. calculate_fg bit_ops 2 1 3 (1/2) (1/2) (1/4) 1 1 2 2 ex_shear = Some s'
         \<and> rd (fG s') 1 0 = Some 0 \<and> rd (fG s') 1 2 = Some 2
         \<and> rd (fF s') 0 2 = Some 0 \<and> rd (fF s') 2 2 = Some 2)"
proof -
  from calculate_fg_boundary_copy[OF wf_ex_shear, of bit_ops 2 1 3 "1/2" "1/2" "1/4" 1 1]
  obtain s' where s': "calculate_fg bit_ops 2 1 3 (1/2) (1/2) (1/4) 1 1 2 2 ex_shear = Some s'"
    and G: "\<And>i. 1 \<le> i \<and> i \<le> 2 \<Longrightarrow> rd (fG s') i 0 = Some (cell (fV ex_shear) i 0)
        \<and> rd (fG s') i 2 = Some (cell (fV ex_shear) i 2)"
    and F: "\<And>j. 1 \<le> j \<and> j \<le> 2 \<Longrightarrow> rd (fF s') 0 j = Some (cell (fU ex_shear) 0 j)
        \<and> rd (fF s') 2 j = Some (cell (fU ex_shear) 2 j)"
    by blast
  from G[of 1] F[of 2] s' wf_ex_shear show ?thesis
    by (simp add: ex_shear_def cell_mk_matrix)
qed

text \<open>
  The claim as stated, for all \<open>i\<close> and all \<open>j\<close>, fails at the corner: on a grid at
  rest whose buffers held 1 before the call, \<open>G[0][0]\<close> and \<open>F[0][0]\<close> still hold 1
  afterwards, while \<open>V[0][0]\<close> and \<open>U[0][0]\<close> are 0.
\<close>

theorem calculate_fg_boundary_copy_counterexample:
  "entry_after fG 0 0 (calculate_fg bit_ops 1 0 0 0 0 1 1 1 1 1 ex_stale) = Some 1
   \<and> entry_after fV 0 0 (calculate_fg bit_ops 1 0 0 0 0 1 1 1 1 1 ex_stale) = Some 0
   \<and> entry_after fF 0 0 (calculate_fg bit_ops 1 0 0 0 0 1 1 1 1 1 ex_stale) = Some 1
   \<and> entry_after fU 0 0 (calculate_fg bit_ops 1 0 0 0 0 1 1 1 1 1 ex_stale) = Some 0"
  by (simp add: entry_after_def calculate_fg_result[OF wf_ex_stale] rd_def
      fg_F_post_other fg_G_post_other)
     (simp add: ex_stale_def zero_fields_def mk_matrix_def)

text \<open>
  Claim C6. On well-formed fields \<^verbatim>\<open>calculate_fg\<close> returns, leaves \<open>U\<close> and \<open>V\<close> as they
  were, and afterwards \<open>F[i][j] = U[i][j]\<close> for every edge \<open>i \<in> [1, imax-1]\<close>,
  \<open>j \<in> [1, jmax]\<close> whose cell or right neighbour is an obstacle, and \<open>G[i][j] = V[i][j]\<close>
  for every edge \<open>i \<in> [1, imax]\<close>, \<open>j \<in> [1, jmax-1]\<close> whose cell or top neighbour is an
  obstacle.
\<close>

theorem calculate_fg_obstacle_copy:
  assumes "wf_fields imax jmax s"
  shows "\<exists>s'. calculate_fg ops Re' GX GY alpha beta dt dx dy imax jmax s = Some s' \<and>
    fU s' = fU s \<and> fV s' = fV s \<and>
    (\<forall>i j. 1 \<le> i \<and> i \<le> imax - 1 \<and> 1 \<le> j \<and> j \<le> jmax
        \<and> (isObstacle ops (cell (fFlags s) i j)
            \<or> isNeighbourObstacle ops (cell (fFlags s) i j) RIGHT)
      \<longrightarrow> rd (fF s') i j = Some (cell (fU s) i j)) \<and>
    (\<forall>i j. 1 \<le> i \<and> i \<le> imax \<and> 1 \<le> j \<and> j \<le> jmax - 1
        \<and> (isObstacle ops (cell (fFlags s) i j)
            \<or> isNeighbourObstacle ops (cell (fFlags s) i j) TOP)
      \<longrightarrow> rd (fG s') i j = Some (cell (fV s) i j))"
  by (simp add: calculate_fg_result[OF assms] rd_def fg_F_post_interior fg_G_post_interior
      F_value_def G_value_def)

theorem calculate_fg_obstacle_copy_witness:
  "wf_fields 2 2 ex_obstacle
   \<and> (\<exists>s'. calculate_fg bit_ops 2 1 3 (1/2) (1/2) (1/4) 1 1 2 2 ex_obstacle = Some s'
         \<and> rd (fF s') 1 1 = Some 1 \<and> rd (fG s') 2 1 = Some 1)"
proof -
  from calculate_fg_obstacle_copy[OF wf_ex_obstacle, of bit_ops 2 1 3 "1/2" "1/2" "1/4" 1 1]
  obtain s' where s': "calculate_fg bit_ops 2 1 3 (1/2) (1/2) (1/4) 1 1 2 2 ex_obstacle = Some s'"
    and F: "\<And>i j. 1 \<le> i \<and> i \<le> 2 - 1 \<and> 1 \<le> j \<and> j \<le> 2
        \<and> (isObstacle bit_ops (cell (fFlags ex_obstacle) i j)
            \<or> isNeighbourObstacle bit_ops (cell (fFlags ex_obstacle) i j) RIGHT)
      \<Longrightarrow> rd (fF s') i j = Some (cell (fU ex_obstacle) i j)"
    and G: "\<And>i j. 1 \<le> i \<and> i \<le> 2 \<and> 1 \<le> j \<and> j \<le> 2 - 1
        \<and> (isObstacle bit_ops (cell (fFlags ex_obstacle) i j)
            \<or> isNeighbourObstacle bit_ops (cell (fFlags ex_obstacle) i j) TOP)
      \<Longrightarrow> rd (fG s') i j = Some (cell (fV ex_obstacle) i j)"
    by blast
  have c: "cell (fFlags ex_obstacle) 1 1 = 16" "cell (fFlags ex_obstacle) 2 1 = 1"
    by (simp_all add: ex_obstacle_def cell_mk_matrix)
  have o: "isNeighbourObstacle bit_ops 16 RIGHT" "isObstacle bit_ops 1"
    by (simp_all add: bit_ops_def)
  have "rd (fF s') 1 1 = Some 1"
    using F[of 1 1] c o by (simp add: ex_obstacle_def ex_shear_def cell_mk_matrix)
  moreover have "rd (fG s') 2 1 = Some 1"
    using G[of 2 1] c o by (simp add: ex_obstacle_def ex_shear_def cell_mk_matrix)
  ultimately show ?thesis using s' wf_ex_obstacle by simp
qed

section \<open>The right-hand side kernel\<close>

lemma rs_cell_step:
  assumes "wf_fields imax jmax s" "allocated 0 imax jmax A"
    "1 \<le> i" "i \<le> imax" "1 \<le> j" "j \<le> jmax"
  shows "rs_cell ops dt dx dy i j (s\<lparr>fRS := A\<rparr>)
           = Some (s\<lparr>fRS := A ++ rs_delta ops dt dx dy s (i, j)\<rparr>)
         \<and> allocated 0 imax jmax (A ++ rs_delta ops dt dx dy s (i, j))"
proof -
  from assms(1) have al: "allocated 0 imax jmax (fF s)" "allocated 0 imax jmax (fG s)"
      "allocated 0 imax jmax (fFlags s)"
    by (simp_all add: wf_fields_def)
  have fl: "rd (fFlags s) i j = Some (cell (fFlags s) i j)"
    using al(3) assms by (intro rd_allocated[of 0 imax jmax]) simp_all
  have r: "rd (fF s) i j = Some (cell (fF s) i j)" "rd (fF s) (i - 1) j = Some (cell (fF s) (i - 1) j)"
    using al(1) assms by (intro rd_allocated[of 0 imax jmax]; simp)+
  have g: "rd (fG s) i j = Some (cell (fG s) i j)" "rd (fG s) i (j - 1) = Some (cell (fG s) i (j - 1))"
    using al(2) assms by (intro rd_allocated[of 0 imax jmax]; simp)+
  have w: "wr A i j v = Some (A((i, j) \<mapsto> v))" for v
    using assms by (intro wr_allocated[of 0 imax jmax]) simp_all
  have A1: "allocated 0 imax jmax (A ++ [(i, j) \<mapsto> v])" for v
    using assms by (intro allocated_map_add1) simp_all
  show ?thesis
    using A1 assms(2) by (simp add: rs_cell_def fl r g w rs_delta_def)
qed

lemma calculate_rs_result:
  assumes wf: "wf_fields imax jmax s"
  shows "calculate_rs ops dt dx dy imax jmax s = Some (s\<lparr>fRS := rs_post ops dt dx dy imax jmax s\<rparr>)"
proof -
  let ?P = "allocated 0 imax jmax :: matrix \<Rightarrow> bool"
  from wf have a: "?P (fRS s)" by (simp add: wf_fields_def)
  have "for_loop (\<lambda>(i, j). rs_cell ops dt dx dy i j) (List.product [1..imax] [1..jmax])
      (s\<lparr>fRS := fRS s\<rparr>) = Some (s\<lparr>fRS := rs_post ops dt dx dy imax jmax s\<rparr>)
      \<and> ?P (rs_post ops dt dx dy imax jmax s)"
    unfolding rs_post_def
  proof (rule for_loop_writes[where put = "\<lambda>A. s\<lparr>fRS := A\<rparr>" and P = ?P])
    fix A :: matrix and x :: "int \<times> int"
    assume x: "x \<in> set (List.product [1..imax] [1..jmax])" and A: "?P A"
    obtain i j where ij: "x = (i, j)" by (cases x)
    with x have r: "1 \<le> i" "i \<le> imax" "1 \<le> j" "j \<le> jmax" by auto
    show "(case x of (i, j) \<Rightarrow> rs_cell ops dt dx dy i j) (s\<lparr>fRS := A\<rparr>)
        = Some (s\<lparr>fRS := A ++ rs_delta ops dt dx dy s x\<rparr>) \<and> ?P (A ++ rs_delta ops dt dx dy s x)"
      using rs_cell_step[OF wf A r, of ops dt dx dy] by (simp add: ij)
  qed (rule a)
  then show ?thesis by (simp add: calculate_rs_def for_loop_nested)
qed

lemma rs_post_fluid:
  assumes "1 \<le> i" "i \<le> imax" "1 \<le> j" "j \<le> jmax" "isFluid ops (cell (fFlags s) i j)"
  shows "rs_post ops dt dx dy imax jmax s (i, j)
     = Some (((cell (fF s) i j - cell (fF s) (i - 1) j) / dx
              + (cell (fG s) i j - cell (fG s) i (j - 1)) / dy) / dt)"
  unfolding rs_post_def
  by (rule foldl_map_add_Some[where x = "(i, j)"]) (use assms in \<open>auto simp: rs_delta_def\<close>)

lemma rs_post_other:
  assumes "\<not> (1 \<le> i \<and> i \<le> imax \<and> 1 \<le> j \<and> j \<le> jmax \<and> isFluid ops (cell (fFlags s) i j))"
  shows "rs_post ops dt dx dy imax jmax s (i, j) = fRS s (i, j)"
  unfolding rs_post_def
  by (rule foldl_map_add_None) (use assms in \<open>auto simp: rs_delta_def\<close>)

text \<open>
  Claim C7. On well-formed fields and for nonzero \<open>dt\<close>, \<open>dx\<close>, \<open>dy\<close>, \<^verbatim>\<open>calculate_rs\<close>
  returns, leaves \<open>F\<close> and \<open>G\<close> as they were, and afterwards every fluid cell with
  \<open>i \<in> [1, imax]\<close>, \<open>j \<in> [1, jmax]\<close> holds
  \<open>RS[i][j] = (1/dt) * ((F[i][j] - F[i-1][j]) / dx + (G[i][j] - G[i][j-1]) / dy)\<close>, while
  every cell of that range that is not fluid keeps the entry of \<open>RS\<close> it had before.
\<close>

theorem calculate_rs_divergence:
  assumes "wf_fields imax jmax s" and "dt \<noteq> 0" and "dx \<noteq> 0" and "dy \<noteq> 0"
  shows "\<exists>s'. calculate_rs ops dt dx dy imax jmax s = Some s' \<and>
    fF s' = fF s \<and> fG s' = fG s \<and>
    (\<forall>i j. 1 \<le> i \<and> i \<le> imax \<and> 1 \<le> j \<and> j \<le> jmax \<and> isFluid ops (cell (fFlags s) i j)
      \<longrightarrow> rd (fRS s') i j = Some ((1 / dt) *
            ((cell (fF s) i j - cell (fF s) (i - 1) j) / dx
             + (cell (fG s) i j - cell (fG s) i (j - 1)) / dy))) \<and>
    (\<forall>i j. 1 \<le> i \<and> i \<le> imax \<and> 1 \<le> j \<and> j \<le> jmax \<and> \<not> isFluid ops (cell (fFlags s) i j)
      \<longrightarrow> rd (fRS s') i j = rd (fRS s) i j)"
  by (simp add: calculate_rs_result[OF assms(1)] rd_def rs_post_fluid rs_post_other)

theorem calculate_rs_divergence_witness:
  "wf_fields 4 4 ex_rs \<and> (1::real) \<noteq> 0
   \<and> (\<exists>s'. calculate_rs bit_ops 1 1 1 4 4 ex_rs = Some s'
         \<and> rd (fRS s') 1 1 = Some 1 \<and> rd (fRS s') 4 3 = Some 1 \<and> rd (fRS s') 2 2 = Some 7)"
proof -
  have one: "(1::real) \<noteq> 0" by simp
  from calculate_rs_divergence[OF wf_ex_rs one one one, of bit_ops]
  obtain s' where s': "calculate_rs bit_ops 1 1 1 4 4 ex_rs = Some s'"
    and R: "\<And>i j. 1 \<le> i \<and> i \<le> 4 \<and> 1 \<le> j \<and> j \<le> 4 \<and> isFluid bit_ops (cell (fFlags ex_rs) i j)
      \<Longrightarrow> rd (fRS s') i j = Some ((1 / 1) *
            ((cell (fF ex_rs) i j - cell (fF ex_rs) (i - 1) j) / 1
             + (cell (fG ex_rs) i j - cell (fG ex_rs) i (j - 1)) / 1))"
    and N: "\<And>i j. 1 \<le> i \<and> i \<le> 4 \<and> 1 \<le> j \<and> j \<le> 4 \<and> \<not> isFluid bit_ops (cell (fFlags ex_rs) i j)
      \<Longrightarrow> rd (fRS s') i j = rd (fRS ex_rs) i j"
    by blast
  have "rd (fRS s') 1 1 = Some 1"
    using R[of 1 1] by (simp add: ex_rs_def zero_fields_def cell_mk_matrix bit_ops_def)
  moreover have "rd (fRS s') 4 3 = Some 1"
    using R[of 4 3] by (simp add: ex_rs_def zero_fields_def cell_mk_matrix bit_ops_def)
  moreover have "rd (fRS s') 2 2 = Some 7"
    using N[of 2 2] by (simp add: ex_rs_def zero_fields_def cell_mk_matrix bit_ops_def rd_mk_matrix)
  ultimately show ?thesis using s' wf_ex_rs by simp
qed

section \<open>The velocity kernel\<close>

lemma uv_cell_U_step:
  assumes "wf_fields imax jmax s" "allocated 0 imax jmax A"
    "1 \<le> i" "i \<le> imax - 1" "1 \<le> j" "j \<le> jmax"
    and same: "fF s0 = fF s" "fP s0 = fP s" "fFlags s0 = fFlags s"
  shows "uv_cell_U ops dt dx i j (s\<lparr>fU := A\<rparr>)
           = Some (s\<lparr>fU := A ++ uv_delta_U ops dt dx s0 (i, j)\<rparr>)
         \<and> allocated 0 imax jmax (A ++ uv_delta_U ops dt dx s0 (i, j))"
proof -
  from assms(1) have al: "allocated 0 imax jmax (fF s)" "allocated 0 imax jmax (fP s)"
      "allocated 0 imax jmax (fFlags s)"
    by (simp_all add: wf_fields_def)
  have fl: "rd (fFlags s) i j = Some (cell (fFlags s) i j)"
    using al(3) assms by (intro rd_allocated[of 0 imax jmax]) simp_all
  have r: "rd (fF s) i j = Some (cell (fF s) i j)"
    using al(1) assms by (intro rd_allocated[of 0 imax jmax]; simp)
  have g: "rd (fP s) i j = Some (cell (fP s) i j)" "rd (fP s) (i + 1) j = Some (cell (fP s) (i + 1) j)"
    using al(2) assms by (intro rd_allocated[of 0 imax jmax]; simp)+
  have w: "wr A i j v = Some (A((i, j) \<mapsto> v))" for v
    using assms by (intro wr_allocated[of 0 imax jmax]) simp_all
  have A1: "allocated 0 imax jmax (A ++ [(i, j) \<mapsto> v])" for v
    using assms by (intro allocated_map_add1) simp_all
  show ?thesis
    using A1 assms(2) by (simp add: uv_cell_U_def fl r g w uv_delta_U_def same)
qed

lemma uv_cell_V_step:
  assumes "wf_fields imax jmax s" "allocated 0 imax jmax A"
    "1 \<le> i" "i \<le> imax" "1 \<le> j" "j \<le> jmax - 1"
    and same: "fG s0 = fG s" "fP s0 = fP s" "fFlags s0 = fFlags s"
  shows "uv_cell_V ops dt dy i j (s\<lparr>fV := A\<rparr>)
           = Some (s\<lparr>fV := A ++ uv_delta_V ops dt dy s0 (i, j)\<rparr>)
         \<and> allocated 0 imax jmax (A ++ uv_delta_V ops dt dy s0 (i, j))"
proof -
  from assms(1) have al: "allocated 0 imax jmax (fG s)" "allocated 0 imax jmax (fP s)"
      "allocated 0 imax jmax (fFlags s)"
    by (simp_all add: wf_fields_def)
  have fl: "rd (fFlags s) i j = Some (cell (fFlags s) i j)"
    using al(3) assms by (intro rd_allocated[of 0 imax jmax]) simp_all
  have r: "rd (fG s) i j = Some (cell (fG s) i j)"
    using al(1) assms by (intro rd_allocated[of 0 imax jmax]; simp)
  have g: "rd (fP s) i j = Some (cell (fP s) i j)" "rd (fP s) i (j + 1) = Some (cell (fP s) i (j + 1))"
    using al(2) assms by (intro rd_allocated[of 0 imax jmax]; simp)+
  have w: "wr A i j v = Some (A((i, j) \<mapsto> v))" for v
    using assms by (intro wr_allocated[of 0 imax jmax]) simp_all
  have A1: "allocated 0 imax jmax (A ++ [(i, j) \<mapsto> v])" for v
    using assms by (intro allocated_map_add1) simp_all
  show ?thesis
    using A1 assms(2) by (simp add: uv_cell_V_def fl r g w uv_delta_V_def same)
qed

lemma calculate_uv_result:
  assumes wf: "wf_fields imax jmax s"
  shows "calculate_uv ops dt dx dy imax jmax s
     = Some (s\<lparr>fU := uv_U_post ops dt dx imax jmax s, fV := uv_V_post ops dt dy imax jmax s\<rparr>)"
proof -
  let ?P = "allocated 0 imax jmax :: matrix \<Rightarrow> bool"
  from wf have aU: "?P (fU s)" and aV: "?P (fV s)" by (simp_all add: wf_fields_def)
  define U1 where "U1 = uv_U_post ops dt dx imax jmax s"
  have l1: "for_loop (\<lambda>(i, j). uv_cell_U ops dt dx i j) (List.product [1..imax - 1] [1..jmax])
      (s\<lparr>fU := fU s\<rparr>) = Some (s\<lparr>fU := U1\<rparr>) \<and> ?P U1"
    unfolding U1_def uv_U_post_def
  proof (rule for_loop_writes[where put = "\<lambda>A. s\<lparr>fU := A\<rparr>" and P = ?P])
    fix A :: matrix and x :: "int \<times> int"
    assume x: "x \<in> set (List.product [1..imax - 1] [1..jmax])" and A: "?P A"
    obtain i j where ij: "x = (i, j)" by (cases x)
    with x have r: "1 \<le> i" "i \<le> imax - 1" "1 \<le> j" "j \<le> jmax" by auto
    show "(case x of (i, j) \<Rightarrow> uv_cell_U ops dt dx i j) (s\<lparr>fU := A\<rparr>)
        = Some (s\<lparr>fU := A ++ uv_delta_U ops dt dx s x\<rparr>) \<and> ?P (A ++ uv_delta_U ops dt dx s x)"
      using uv_cell_U_step[OF wf A r, of s ops dt dx] by (simp add: ij)
  qed (rule aU)
  define s1 where "s1 = s\<lparr>fU := U1\<rparr>"
  from l1 have l1': "for_loop (\<lambda>i. for_loop (uv_cell_U ops dt dx i) [1..jmax]) [1..imax - 1] s = Some s1"
    and aU1: "?P U1"
    by (simp_all add: for_loop_nested s1_def)
  have wf1: "wf_fields imax jmax s1" using wf aU1 by (simp add: wf_fields_def s1_def)
  define V2 where "V2 = uv_V_post ops dt dy imax jmax s"
  have l2: "for_loop (\<lambda>(i, j). uv_cell_V ops dt dy i j) (List.product [1..imax] [1..jmax - 1])
      (s1\<lparr>fV := fV s\<rparr>) = Some (s1\<lparr>fV := V2\<rparr>) \<and> ?P V2"
    unfolding V2_def uv_V_post_def
  proof (rule for_loop_writes[where put = "\<lambda>A. s1\<lparr>fV := A\<rparr>" and P = ?P])
    fix A :: matrix and x :: "int \<times> int"
    assume x: "x \<in> set (List.product [1..imax] [1..jmax - 1])" and A: "?P A"
    obtain i j where ij: "x = (i, j)" by (cases x)
    with x have r: "1 \<le> i" "i \<le> imax" "1 \<le> j" "j \<le> jmax - 1" by auto
    have same: "fG s = fG s1" "fP s = fP s1" "fFlags s = fFlags s1" by (simp_all add: s1_def)
    show "(case x of (i, j) \<Rightarrow> uv_cell_V ops dt dy i j) (s1\<lparr>fV := A\<rparr>)
        = Some (s1\<lparr>fV := A ++ uv_delta_V ops dt dy s x\<rparr>) \<and> ?P (A ++ uv_delta_V ops dt dy s x)"
      using uv_cell_V_step[OF wf1 A r same, of ops dt dy] by (simp add: ij)
  qed (rule aV)
  have s1V: "s1\<lparr>fV := fV s\<rparr> = s1" by (simp add: s1_def)
  from l2 have l2': "for_loop (\<lambda>i. for_loop (uv_cell_V ops dt dy i) [1..jmax - 1]) [1..imax] s1
      = Some (s1\<lparr>fV := V2\<rparr>)"
    by (simp add: for_loop_nested s1V)
  show ?thesis
    by (simp add: calculate_uv_def l1' l2') (simp add: s1_def U1_def V2_def)
qed

lemma uv_U_post_fluid:
  assumes "1 \<le> i" "i \<le> imax - 1" "1 \<le> j" "j \<le> jmax"
    "isFluid ops (cell (fFlags s) i j)" "isNeighbourFluid ops (cell (fFlags s) i j) RIGHT"
  shows "uv_U_post ops dt dx imax jmax s (i, j)
     = Some (cell (fF s) i j - (dt / dx * (cell (fP s) (i + 1) j - cell (fP s) i j)))"
  unfolding uv_U_post_def
  by (rule foldl_map_add_Some[where x = "(i, j)"]) (use assms in \<open>auto simp: uv_delta_U_def\<close>)

lemma uv_U_post_other:
  assumes "\<not> (1 \<le> i \<and> i \<le> imax - 1 \<and> 1 \<le> j \<and> j \<le> jmax
      \<and> isFluid ops (cell (fFlags s) i j) \<and> isNeighbourFluid ops (cell (fFlags s) i j) RIGHT)"
  shows "uv_U_post ops dt dx imax jmax s (i, j) = fU s (i, j)"
  unfolding uv_U_post_def
  by (rule foldl_map_add_None) (use assms in \<open>auto simp: uv_delta_U_def\<close>)

lemma uv_V_post_fluid:
  assumes "1 \<le> i" "i \<le> imax" "1 \<le> j" "j \<le> jmax - 1"
    "isFluid ops (cell (fFlags s) i j)" "isNeighbourFluid ops (cell (fFlags s) i j) TOP"
  shows "uv_V_post ops dt dy imax jmax s (i, j)
     = Some (cell (fG s) i j - (dt / dy * (cell (fP s) i (j + 1) - cell (fP s) i j)))"
  unfolding uv_V_post_def
  by (rule foldl_map_add_Some[where x = "(i, j)"]) (use assms in \<open>auto simp: uv_delta_V_def\<close>)

lemma uv_V_post_other:
  assumes "\<not> (1 \<le> i \<and> i \<le> imax \<and> 1 \<le> j \<and> j \<le> jmax - 1
      \<and> isFluid ops (cell (fFlags s) i j) \<and> isNeighbourFluid ops (cell (fFlags s) i j) TOP)"
  shows "uv_V_post ops dt dy imax jmax s (i, j) = fV s (i, j)"
  unfolding uv_V_post_def
  by (rule foldl_map_add_None) (use assms in \<open>auto simp: uv_delta_V_def\<close>)

text \<open>
  Claim C8. On well-formed fields \<^verbatim>\<open>calculate_uv\<close> returns, leaves \<open>F\<close>, \<open>G\<close> and \<open>P\<close> as
  they were, and afterwards \<open>U[i][j] = F[i][j] - (dt/dx) * (P[i+1][j] - P[i][j])\<close> for every
  edge \<open>i \<in> [1, imax-1]\<close>, \<open>j \<in> [1, jmax]\<close> whose cell and right neighbour are fluid,
  \<open>V[i][j] = G[i][j] - (dt/dy) * (P[i][j+1] - P[i][j])\<close> for every edge \<open>i \<in> [1, imax]\<close>,
  \<open>j \<in> [1, jmax-1]\<close> whose cell and top neighbour are fluid, and every other entry of \<open>U\<close>
  and of \<open>V\<close> is the one from before the call.
\<close>

theorem calculate_uv_correction:
  assumes "wf_fields imax jmax s"
  shows "\<exists>s'. calculate_uv ops dt dx dy imax jmax s = Some s' \<and>
    fF s' = fF s \<and> fG s' = fG s \<and> fP s' = fP s \<and>
    (\<forall>i j. 1 \<le> i \<and> i \<le> imax - 1 \<and> 1 \<le> j \<and> j \<le> jmax
        \<and> isFluid ops (cell (fFlags s) i j) \<and> isNeighbourFluid ops (cell (fFlags s) i j) RIGHT
      \<longrightarrow> rd (fU s') i j
          = Some (cell (fF s) i j - (dt / dx) * (cell (fP s) (i + 1) j - cell (fP s) i j))) \<and>
    (\<forall>i j. 1 \<le> i \<and> i \<le> imax \<and> 1 \<le> j \<and> j \<le> jmax - 1
        \<and> isFluid ops (cell (fFlags s) i j) \<and> isNeighbourFluid ops (cell (fFlags s) i j) TOP
      \<longrightarrow> rd (fV s') i j
          = Some (cell (fG s) i j - (dt / dy) * (cell (fP s) i (j + 1) - cell (fP s) i j))) \<and>
    (\<forall>i j. \<not> (1 \<le> i \<and> i \<le> imax - 1 \<and> 1 \<le> j \<and> j \<le> jmax
        \<and> isFluid ops (cell (fFlags s) i j) \<and> isNeighbourFluid ops (cell (fFlags s) i j) RIGHT)
      \<longrightarrow> rd (fU s') i j = rd (fU s) i j) \<and>
    (\<forall>i j. \<not> (1 \<le> i \<and> i \<le> imax \<and> 1 \<le> j \<and> j \<le> jmax - 1
        \<and> isFluid ops (cell (fFlags s) i j) \<and> isNeighbourFluid ops (cell (fFlags s) i j) TOP)
      \<longrightarrow> rd (fV s') i j = rd (fV s) i j)"
  by (simp add: calculate_uv_result[OF assms] rd_def uv_U_post_fluid uv_V_post_fluid
      uv_U_post_other uv_V_post_other)

theorem calculate_uv_correction_witness:
  "wf_fields 2 2 ex_uv
   \<and> (\<exists>s'. calculate_uv bit_ops (1/2) 1 2 2 2 ex_uv = Some s'
         \<and> rd (fU s') 1 2 = Some 0 \<and> rd (fV s') 1 1 = Some (3/4)
         \<and> rd (fU s') 1 1 = Some 5 \<and> rd (fU s') 2 1 = Some 5
         \<and> rd (fV s') 2 1 = Some 6 \<and> rd (fV s') 1 2 = Some 6)"
proof -
  from calculate_uv_correction[OF wf_ex_uv, of bit_ops "1/2" 1 2]
  obtain s' where s': "calculate_uv bit_ops (1/2) 1 2 2 2 ex_uv = Some s'"
    and U: "\<And>i j. 1 \<le> i \<and> i \<le> 2 - 1 \<and> 1 \<le> j \<and> j \<le> 2
        \<and> isFluid bit_ops (cell (fFlags ex_uv) i j)
        \<and> isNeighbourFluid bit_ops (cell (fFlags ex_uv) i j) RIGHT
      \<Longrightarrow> rd (fU s') i j
          = Some (cell (fF ex_uv) i j - (1/2 / 1) * (cell (fP ex_uv) (i + 1) j - cell (fP ex_uv) i j))"
    and V: "\<And>i j. 1 \<le> i \<and> i \<le> 2 \<and> 1 \<le> j \<and> j \<le> 2 - 1
        \<and> isFluid bit_ops (cell (fFlags ex_uv) i j)
        \<and> isNeighbourFluid bit_ops (cell (fFlags ex_uv) i j) TOP
      \<Longrightarrow> rd (fV s') i j
          = Some (cell (fG ex_uv) i j - (1/2 / 2) * (cell (fP ex_uv) i (j + 1) - cell (fP ex_uv) i j))"
    and U': "\<And>i j. \<not> (1 \<le> i \<and> i \<le> 2 - 1 \<and> 1 \<le> j \<and> j \<le> 2
        \<and> isFluid bit_ops (cell (fFlags ex_uv) i j)
        \<and> isNeighbourFluid bit_ops (cell (fFlags ex_uv) i j) RIGHT)
      \<Longrightarrow> rd (fU s') i j = rd (fU ex_uv) i j"
    and V': "\<And>i j. \<not> (1 \<le> i \<and> i \<le> 2 \<and> 1 \<le> j \<and> j \<le> 2 - 1
        \<and> isFluid bit_ops (cell (fFlags ex_uv) i j)
        \<and> isNeighbourFluid bit_ops (cell (fFlags ex_uv) i j) TOP)
      \<Longrightarrow> rd (fV s') i j = rd (fV ex_uv) i j"
    by blast
  have c: "cell (fFlags ex_uv) 1 1 = 16" "cell (fFlags ex_uv) 1 2 = 0"
      "cell (fFlags ex_uv) 2 1 = 1"
    by (simp_all add: ex_uv_def ex_obstacle_def cell_mk_matrix)
  have "rd (fU s') 1 2 = Some 0"
    using U[of 1 2] c by (simp add: ex_uv_def cell_mk_matrix bit_ops_def)
  moreover have "rd (fV s') 1 1 = Some (3/4)"
    using V[of 1 1] c by (simp add: ex_uv_def cell_mk_matrix bit_ops_def)
  moreover have "rd (fU s') 1 1 = Some 5"
    using U'[of 1 1] c by (simp add: ex_uv_def rd_mk_matrix bit_ops_def)
  moreover have "rd (fU s') 2 1 = Some 5"
    using U'[of 2 1] by (simp add: ex_uv_def rd_mk_matrix)
  moreover have "rd (fV s') 2 1 = Some 6"
    using V'[of 2 1] c by (simp add: ex_uv_def rd_mk_matrix bit_ops_def)
  moreover have "rd (fV s') 1 2 = Some 6"
    using V'[of 1 2] by (simp add: ex_uv_def rd_mk_matrix)
  ultimately show ?thesis using s' wf_ex_uv by simp
qed

section \<open>The time step kernel\<close>

lemma dt_scan_cell_value:
  assumes "allocated 0 imax jmax (fU s)" "allocated 0 imax jmax (fV s)"
    "0 \<le> i" "i \<le> imax" "0 \<le> j" "j \<le> jmax"
  shows "dt_scan_cell s (i, j) (um, vm)
     = Some (max \<bar>cell (fU s) i j\<bar> um, max \<bar>cell (fV s) i j\<bar> vm)"
proof -
  have "rd (fU s) i j = Some (cell (fU s) i j)" "rd (fV s) i j = Some (cell (fV s) i j)"
    using assms by (intro rd_allocated[of 0 imax jmax]; simp)+
  then show ?thesis by (simp add: dt_scan_cell_def max_def)
qed

lemma dt_scan_list:
  assumes "allocated 0 imax jmax (fU s)" "allocated 0 imax jmax (fV s)"
  shows "\<forall>p\<in>set ps. 0 \<le> fst p \<and> fst p \<le> imax \<and> 0 \<le> snd p \<and> snd p \<le> jmax \<Longrightarrow>
    for_loop (dt_scan_cell s) ps (um, vm)
     = Some (fold max (map (\<lambda>(i, j). \<bar>cell (fU s) i j\<bar>) ps) um,
             fold max (map (\<lambda>(i, j). \<bar>cell (fV s) i j\<bar>) ps) vm)"
proof (induction ps arbitrary: um vm)
  case Nil
  then show ?case by simp
next
  case (Cons p ps)
  obtain i j where p: "p = (i, j)" by (cases p)
  with Cons.prems have r: "0 \<le> i" "i \<le> imax" "0 \<le> j" "j \<le> jmax" by auto
  from Cons.prems have rest: "\<forall>p\<in>set ps. 0 \<le> fst p \<and> fst p \<le> imax \<and> 0 \<le> snd p \<and> snd p \<le> jmax"
    by simp
  show ?case
    by (simp add: p dt_scan_cell_value[OF assms r] Cons.IH[OF rest])
qed

lemma fold_max_nonneg:
  assumes "xs \<noteq> []" and "\<forall>x\<in>set xs. (0::real) \<le> x"
  shows "fold max xs 0 = Max (set xs)"
proof -
  have "fold max xs 0 = Max (set (0 # xs))" by (simp only: Max.set_eq_fold)
  also have "\<dots> = max 0 (Max (set xs))" using assms(1) by simp
  also have "\<dots> = Max (set xs)"
  proof -
    from assms(1) obtain x where "x \<in> set xs" by (cases xs) auto
    then have "0 \<le> Max (set xs)" using assms(2) by (meson List.finite_set Max_ge order_trans)
    then show ?thesis by simp
  qed
  finally show ?thesis .
qed

lemma dt_scan_value:
  assumes "allocated 0 imax jmax (fU s)" "allocated 0 imax jmax (fV s)" "0 \<le> imax" "0 \<le> jmax"
  shows "dt_scan imax jmax s = Some (abs_max (fU s) imax jmax, abs_max (fV s) imax jmax)"
proof -
  let ?ps = "List.product [0..imax] [0..jmax]"
  have ne: "?ps \<noteq> []" using assms(3,4) by (auto simp: upto.simps)
  have r: "\<forall>p\<in>set ?ps. 0 \<le> fst p \<and> fst p \<le> imax \<and> 0 \<le> snd p \<and> snd p \<le> jmax" by auto
  have m: "fold max (map (\<lambda>(i, j). \<bar>cell A i j\<bar>) ?ps) 0 = abs_max A imax jmax" for A :: matrix
  proof -
    have "fold max (map (\<lambda>(i, j). \<bar>cell A i j\<bar>) ?ps) 0
        = Max (set (map (\<lambda>(i, j). \<bar>cell A i j\<bar>) ?ps))"
      using ne by (intro fold_max_nonneg) auto
    also have "\<dots> = abs_max A imax jmax" by (simp add: abs_max_def)
    finally show ?thesis .
  qed
  have "dt_scan imax jmax s = for_loop (dt_scan_cell s) ?ps (0, 0)"
    by (simp add: dt_scan_def for_loop_nested)
  then show ?thesis by (simp add: dt_scan_list[OF assms(1,2) r] m)
qed

lemma abs_max_nonneg:
  assumes "0 \<le> imax" "0 \<le> jmax"
  shows "0 \<le> abs_max A imax jmax"
proof -
  let ?S = "(\<lambda>(i, j). \<bar>cell A i j\<bar>) ` ({0..imax} \<times> {0..jmax})"
  have "finite ?S" by simp
  moreover have "\<bar>cell A 0 0\<bar> \<in> ?S" using assms by (auto simp: image_def intro!: bexI[of _ 0])
  ultimately have "\<bar>cell A 0 0\<bar> \<le> Max ?S" by (rule Max_ge)
  then show ?thesis by (simp add: abs_max_def)
qed

lemma diffusive_bound_finite:
  assumes "dx \<noteq> 0" "dy \<noteq> 0"
  shows "ddiv (Fin a) (dadd (ddiv (Fin 1) (Fin (dx ^ 2))) (ddiv (Fin 1) (Fin (dy ^ 2))))
     = Fin (a / (1 / dx ^ 2 + 1 / dy ^ 2))"
proof -
  have "0 < 1 / dx ^ 2 + 1 / dy ^ 2" using assms by (simp add: add_pos_pos)
  then have "1 / dx ^ 2 + 1 / dy ^ 2 \<noteq> 0" by simp
  then show ?thesis using assms by simp
qed

lemma calculate_dt_result:
  assumes "wf_fields imax jmax s"
  shows "calculate_dt Re' Pr tau dx dy imax jmax s =
    Some (s\<lparr>fdt := dmul (Fin tau)
      (fmin (ddiv (Fin (Re' * Pr / 2))
                  (dadd (ddiv (Fin 1) (Fin (dx ^ 2))) (ddiv (Fin 1) (Fin (dy ^ 2)))))
            (fmin (ddiv (Fin dx) (Fin (abs_max (fU s) imax jmax)))
                  (ddiv (Fin dy) (Fin (abs_max (fV s) imax jmax)))))\<rparr>)"
proof -
  from assms have "dt_scan imax jmax s = Some (abs_max (fU s) imax jmax, abs_max (fV s) imax jmax)"
    by (intro dt_scan_value) (simp_all add: wf_fields_def)
  then show ?thesis by (simp add: calculate_dt_def)
qed

text \<open>
  Claim C2. After \<^verbatim>\<open>calculate_dt\<close> on well-formed fields whose maxima \<open>u_max\<close> and \<open>v_max\<close>
  of \<open>|U[i][j]|\<close> and \<open>|V[i][j]|\<close> over \<open>i \<in> [0, imax]\<close>, \<open>j \<in> [0, jmax]\<close> are nonzero, and for
  nonzero \<open>dx\<close> and \<open>dy\<close>, \<open>dt\<close> is the finite number \<open>tau\<close> times the minimum of
  \<open>Re * Pr / 2 / (1/dx^2 + 1/dy^2)\<close>, \<open>dx / u_max\<close> and \<open>dy / v_max\<close>; and for positive \<open>dx\<close>,
  \<open>dy\<close>, \<open>Re\<close>, \<open>Pr\<close>, \<open>tau\<close> it exceeds none of \<open>tau * dx / u_max\<close>, \<open>tau * dy / v_max\<close> and
  \<open>tau * Re * Pr / 2 / (1/dx^2 + 1/dy^2)\<close>.
\<close>

theorem calculate_dt_cfl:
  assumes "wf_fields imax jmax s"
    and "abs_max (fU s) imax jmax \<noteq> 0" and "abs_max (fV s) imax jmax \<noteq> 0"
    and "dx \<noteq> 0" and "dy \<noteq> 0"
  shows "\<exists>s' t. calculate_dt Re' Pr tau dx dy imax jmax s = Some s' \<and> fdt s' = Fin t \<and>
    t = tau * min (Re' * Pr / 2 / (1 / dx ^ 2 + 1 / dy ^ 2))
                   (min (dx / abs_max (fU s) imax jmax) (dy / abs_max (fV s) imax jmax)) \<and>
    (0 < dx \<and> 0 < dy \<and> 0 < Re' \<and> 0 < Pr \<and> 0 < tau \<longrightarrow>
       t \<le> tau * dx / abs_max (fU s) imax jmax \<and>
       t \<le> tau * dy / abs_max (fV s) imax jmax \<and>
       t \<le> tau * Re' * Pr / 2 / (1 / dx ^ 2 + 1 / dy ^ 2))"
proof -
  let ?d = "Re' * Pr / 2 / (1 / dx ^ 2 + 1 / dy ^ 2)"
  let ?bx = "dx / abs_max (fU s) imax jmax"
  let ?by = "dy / abs_max (fV s) imax jmax"
  define m where "m = min ?d (min ?bx ?by)"
  have d: "ddiv (Fin (Re' * Pr / 2))
      (dadd (ddiv (Fin 1) (Fin (dx ^ 2))) (ddiv (Fin 1) (Fin (dy ^ 2)))) = Fin ?d"
    by (rule diffusive_bound_finite[OF assms(4,5)])
  have qx: "ddiv (Fin dx) (Fin (abs_max (fU s) imax jmax)) = Fin ?bx"
    using assms(2) by simp
  have qy: "ddiv (Fin dy) (Fin (abs_max (fV s) imax jmax)) = Fin ?by"
    using assms(3) by simp
  have mm: "dmul (Fin tau) (fmin (Fin ?d) (fmin (Fin ?bx) (Fin ?by))) = Fin (tau * m)"
    by (simp add: m_def)
  have res: "calculate_dt Re' Pr tau dx dy imax jmax s = Some (s\<lparr>fdt := Fin (tau * m)\<rparr>)"
    by (simp only: calculate_dt_result[OF assms(1)] d qx qy mm)
  have le: "m \<le> ?bx" "m \<le> ?by" "m \<le> ?d" by (simp_all add: m_def)
  have b1: "tau * m \<le> tau * dx / abs_max (fU s) imax jmax" if "0 < tau"
    using mult_left_mono[OF le(1), of tau] that by simp
  have b2: "tau * m \<le> tau * dy / abs_max (fV s) imax jmax" if "0 < tau"
    using mult_left_mono[OF le(2), of tau] that by simp
  have b3: "tau * m \<le> tau * Re' * Pr / 2 / (1 / dx ^ 2 + 1 / dy ^ 2)" if "0 < tau"
  proof -
    have "tau * m \<le> tau * ?d" using mult_left_mono[OF le(3), of tau] that by simp
    also have "tau * ?d = tau * Re' * Pr / 2 / (1 / dx ^ 2 + 1 / dy ^ 2)"
      by (simp add: mult.assoc)
    finally show ?thesis .
  qed
  show ?thesis
  proof (intro exI[of _ "s\<lparr>fdt := Fin (tau * m)\<rparr>"] exI[of _ "tau * m"] conjI impI)
    show "calculate_dt Re' Pr tau dx dy imax jmax s = Some (s\<lparr>fdt := Fin (tau * m)\<rparr>)"
      by (rule res)
    show "fdt (s\<lparr>fdt := Fin (tau * m)\<rparr>) = Fin (tau * m)" by simp
    show "tau * m = tau * min ?d (min ?bx ?by)" by (simp add: m_def)
  next
    assume "0 < dx \<and> 0 < dy \<and> 0 < Re' \<and> 0 < Pr \<and> 0 < tau"
    then have t: "0 < tau" by simp
    show "tau * m \<le> tau * dx / abs_max (fU s) imax jmax" by (rule b1[OF t])
    show "tau * m \<le> tau * dy / abs_max (fV s) imax jmax" by (rule b2[OF t])
    show "tau * m \<le> tau * Re' * Pr / 2 / (1 / dx ^ 2 + 1 / dy ^ 2)" by (rule b3[OF t])
  qed
qed

theorem calculate_dt_cfl_witness:
  "wf_fields 1 1 ex_dt \<and> abs_max (fU ex_dt) 1 1 \<noteq> 0 \<and> abs_max (fV ex_dt) 1 1 \<noteq> 0
   \<and> (0::real) < 1/10 \<and> (0::real) < 10 \<and> (0::real) < 1 \<and> (0::real) < 1/2
   \<and> (\<exists>s'. calculate_dt 10 1 (1/2) (1/10) (1/10) 1 1 ex_dt = Some s' \<and> fdt s' = Fin (1/80))
   \<and> (1/80 :: real) \<le> 1/2 * (1/10) / 2 \<and> (1/80 :: real) \<le> 1/2 * (1/10) / 4
   \<and> (1/80 :: real) \<le> 1/2 * 10 * 1 / 2 / (1 / (1/10) ^ 2 + 1 / (1/10) ^ 2)"
proof -
  have h: "abs_max (fU ex_dt) 1 1 \<noteq> 0" "abs_max (fV ex_dt) 1 1 \<noteq> 0"
    by (simp_all add: abs_max_ex_dt)
  have n: "(1/10 :: real) \<noteq> 0" by simp
  from calculate_dt_cfl[OF wf_ex_dt h n n, of 10 1 "1/2"]
  obtain s' t where s': "calculate_dt 10 1 (1/2) (1/10) (1/10) 1 1 ex_dt = Some s'"
    and f: "fdt s' = Fin t"
    and v: "t = 1/2 * min (10 * 1 / 2 / (1 / (1/10) ^ 2 + 1 / (1/10) ^ 2))
                   (min (1/10 / abs_max (fU ex_dt) 1 1) (1/10 / abs_max (fV ex_dt) 1 1))"
    and b: "(0::real) < 1/10 \<and> (0::real) < 1/10 \<and> (0::real) < 10 \<and> (0::real) < 1 \<and> (0::real) < 1/2 \<longrightarrow>
       t \<le> 1/2 * (1/10) / abs_max (fU ex_dt) 1 1 \<and>
       t \<le> 1/2 * (1/10) / abs_max (fV ex_dt) 1 1 \<and>
       t \<le> 1/2 * 10 * 1 / 2 / (1 / (1/10) ^ 2 + 1 / (1/10) ^ 2)"
    by blast
  have t: "t = 1/80" using v by (simp add: abs_max_ex_dt power2_eq_square)
  have "(1/80 :: real) \<le> 1/2 * (1/10) / 2 \<and> (1/80 :: real) \<le> 1/2 * (1/10) / 4
         \<and> (1/80 :: real) \<le> 1/2 * 10 * 1 / 2 / (1 / (1/10) ^ 2 + 1 / (1/10) ^ 2)"
    using b unfolding t by (simp add: abs_max_ex_dt power2_eq_square)
  then show ?thesis using s' f t wf_ex_dt h by simp
qed




section \<open>The temperature kernel: bounds and sweep order\<close>

lemma upto_0_1: "[0..1] = [0, 1::int]"
  by (simp add: upto.simps)

lemma T_update_first_cell:
  assumes "allocated 0 imax jmax T" "allocated 0 imax jmax U" "0 \<le> imax" "0 \<le> jmax"
  shows "T_update Re' Pr dt dx dy alpha T U V 0 0 = None"
proof -
  have "rd U (0 - 1) 0 = None" using assms(2) by (intro rd_outside[of 0 imax jmax]) simp_all
  then show ?thesis by (simp add: T_update_def split: Option.bind_split)
qed

lemma calculate_T_first_cell:
  assumes "wf_fields imax jmax s"
  shows "calculate_T Re' Pr dt dx dy alpha imax jmax s = None"
proof -
  from assms have r: "0 \<le> imax" "0 \<le> jmax" and a: "allocated 0 imax jmax (fT s)"
      "allocated 0 imax jmax (fU s)"
    by (simp_all add: wf_fields_def)
  have i: "[0..imax] = 0 # [1..imax]" and j: "[0..jmax] = 0 # [1..jmax]"
    using r by (simp_all add: upto.simps)
  have "T_cell Re' Pr dt dx dy alpha 0 0 s = None"
    by (simp add: T_cell_def T_update_first_cell[OF a r])
  then show ?thesis by (simp add: calculate_T_def i j)
qed

lemma calculate_T_ex_heat:
  "calculate_T 1 1 1 1 1 0 1 1 ex_heat
     = Some (ex_heat\<lparr>fT := (fT ex_heat)((0, 0) \<mapsto> - 3, (0, 1) \<mapsto> - 3, (1, 0) \<mapsto> - 3, (1, 1) \<mapsto> - 6)\<rparr>)"
  by (simp add: calculate_T_def upto_0_1 T_cell_def T_update_def rd_def wr_def ex_heat_def
      zero_fields_def mk_matrix_def)

lemma calculate_T_buffered_ex_heat:
  "calculate_T_buffered 1 1 1 1 1 0 1 1 ex_heat
     = Some (ex_heat\<lparr>fT := (fT ex_heat)((0, 0) \<mapsto> - 3, (0, 1) \<mapsto> 1, (1, 0) \<mapsto> 1, (1, 1) \<mapsto> 0)\<rparr>)"
  by (simp add: calculate_T_buffered_def upto_0_1 T_cell_buffered_def T_update_def rd_def wr_def
      ex_heat_def zero_fields_def mk_matrix_def)

text \<open>
  Claim C4 says that every array access of \<^verbatim>\<open>calculate_T\<close> lies inside the extended field
  \<open>[0..imax+1] \<times> [0..jmax+1]\<close>. The code does otherwise: its sweep starts at \<open>i = 0\<close>,
  \<open>j = 0\<close>, where the stencil reads \<open>U[i-1][j]\<close> at index -1. On every well-formed
  input the kernel faults, at its first cell.
\<close>

theorem calculate_T_faults:
  assumes "wf_fields imax jmax s"
  shows "calculate_T Re' Pr dt dx dy alpha imax jmax s = None"
  by (rule calculate_T_first_cell[OF assms])

text \<open>The fault on the all-zero fields of a 1 by 1 grid: the read of \<open>U[-1][0]\<close>.\<close>

theorem calculate_T_out_of_bounds:
  "rd (fU (zero_fields 0 1 1)) (0 - 1) 0 = None
   \<and> T_update 1 1 1 1 1 0 (fT (zero_fields 0 1 1)) (fU (zero_fields 0 1 1))
        (fV (zero_fields 0 1 1)) 0 0 = None
   \<and> calculate_T 1 1 1 1 1 0 1 1 (zero_fields 0 1 1) = None"
proof -
  have wf: "wf_fields 1 1 (zero_fields 0 1 1)" by (rule wf_zero_fields) simp_all
  then have a: "allocated 0 1 1 (fT (zero_fields 0 1 1))" "allocated 0 1 1 (fU (zero_fields 0 1 1))"
    by (simp_all add: wf_fields_def)
  have "rd (fU (zero_fields 0 1 1)) (0 - 1) 0 = None"
    using a(2) by (intro rd_outside[of 0 1 1]) simp_all
  then show ?thesis
    using T_update_first_cell[OF a, of 1 1 1 1 1 0 "fV (zero_fields 0 1 1)"]
      calculate_T_faults[OF wf, of 1 1 1 1 1 0]
    by simp
qed

text \<open>
  Claim C9. The sweep of \<^verbatim>\<open>calculate_T\<close> updates \<open>T\<close> in place, so a cell reads the new
  values of its left and bottom neighbours; its result differs from the double-buffered
  step, which computes every new value from the temperature before the sweep. On the
  grid \<open>ex_heat\<close>, whose fields are allocated from index -1 on so that the reads at
  \<open>i = 0\<close> and \<open>j = 0\<close> are defined, the two disagree in the cells (0,1), (1,0) and (1,1).
\<close>

theorem calculate_T_order_dependent:
  "entry_after fT 0 1 (calculate_T 1 1 1 1 1 0 1 1 ex_heat) = Some (- 3)
   \<and> entry_after fT 0 1 (calculate_T_buffered 1 1 1 1 1 0 1 1 ex_heat) = Some 1
   \<and> entry_after fT 1 0 (calculate_T 1 1 1 1 1 0 1 1 ex_heat) = Some (- 3)
   \<and> entry_after fT 1 0 (calculate_T_buffered 1 1 1 1 1 0 1 1 ex_heat) = Some 1
   \<and> entry_after fT 1 1 (calculate_T 1 1 1 1 1 0 1 1 ex_heat) = Some (- 6)
   \<and> entry_after fT 1 1 (calculate_T_buffered 1 1 1 1 1 0 1 1 ex_heat) = Some 0
   \<and> calculate_T 1 1 1 1 1 0 1 1 ex_heat \<noteq> calculate_T_buffered 1 1 1 1 1 0 1 1 ex_heat"
proof -
  have d: "entry_after fT 0 1 (calculate_T 1 1 1 1 1 0 1 1 ex_heat)
      \<noteq> entry_after fT 0 1 (calculate_T_buffered 1 1 1 1 1 0 1 1 ex_heat)"
    by (simp add: calculate_T_ex_heat calculate_T_buffered_ex_heat entry_after_def rd_def)
  then have "calculate_T 1 1 1 1 1 0 1 1 ex_heat \<noteq> calculate_T_buffered 1 1 1 1 1 0 1 1 ex_heat"
    by metis
  then show ?thesis
    by (simp add: calculate_T_ex_heat calculate_T_buffered_ex_heat entry_after_def rd_def)
qed

section \<open>What the kernels leave unchanged\<close>

lemma for_loop_keeps:
  assumes "for_loop f xs s = Some s'"
    and "\<And>x t t'. x \<in> set xs \<Longrightarrow> f x t = Some t' \<Longrightarrow> g t' = g t"
  shows "g s' = g s"
  using for_loop_invariant[where I = "\<lambda>t. g t = g s", OF assms(1)] assms(2) by simp

lemma for_loop_nested_keeps:
  assumes "for_loop (\<lambda>i. for_loop (f i) js) is s = Some s'"
    and "\<And>i j t t'. f i j t = Some t' \<Longrightarrow> g t' = g t"
  shows "g s' = g s"
proof (rule for_loop_keeps[OF assms(1)])
  fix i t t'
  assume "for_loop (f i) js t = Some t'"
  then show "g t' = g t" by (rule for_loop_keeps) (rule assms(2))
qed













lemma T_cell_keeps:
  "T_cell Re' Pr dt dx dy alpha i j s = Some s' \<Longrightarrow>
     (fU s', fV s', fF s', fG s', fP s', fRS s', fFlags s', fdt s')
       = (fU s, fV s, fF s, fG s, fP s, fRS s, fFlags s, fdt s)"
  by (auto simp: T_cell_def split: Option.bind_splits)

lemma calculate_T_keeps:
  assumes "calculate_T Re' Pr dt dx dy alpha imax jmax s = Some s'"
  shows "(fU s', fV s', fF s', fG s', fP s', fRS s', fFlags s', fdt s')
       = (fU s, fV s, fF s, fG s, fP s, fRS s, fFlags s, fdt s)"
  by (rule for_loop_nested_keeps[OF assms[unfolded calculate_T_def]]) (rule T_cell_keeps)




end
